theory Spec2Isabelle
  imports Main "HOL-Library.Sublist"
begin

section \<open>Strings as the agent uses them\<close>

text \<open>
  The source is \<^verbatim>\<open>src/agents/common/build-agent.ts\<close>, class \<^verbatim>\<open>BuildAgentBase\<close>.
  A JavaScript string is modelled as a \<^typ>\<open>string\<close>, one \<^typ>\<open>char\<close> per code unit
  below 256. \<^verbatim>\<open>trim\<close> removes the white space and line terminators that exist below
  256.

  \<^verbatim>\<open>String.prototype.toUpperCase\<close> follows the Unicode case mapping, which can leave the
  code units below 256 and change the length of a string. Where the code applies it to
  any string (the key of an input) it is a parameter of the model, named
  \<open>toUpperCase\<close>. Where the code applies it to a string of ASCII characters only (a
  name the pattern of \<open>getExpandedString\<close> has matched) it is the function below, which
  is what the Unicode mapping does on such a string.
\<close>

definition toUpperCase_ascii_char :: "char \<Rightarrow> char" where
  "toUpperCase_ascii_char c =
     (case map_of (zip ''abcdefghijklmnopqrstuvwxyz'' ''ABCDEFGHIJKLMNOPQRSTUVWXYZ'') c of
        Some u \<Rightarrow> u
      | None \<Rightarrow> c)"

definition toUpperCase_ascii :: "string \<Rightarrow> string" where
  "toUpperCase_ascii s = map toUpperCase_ascii_char s"

definition is_ws :: "char \<Rightarrow> bool" where
  "is_ws c \<longleftrightarrow> c \<in> set [CHR 0x09, CHR 0x0A, CHR 0x0B, CHR 0x0C, CHR 0x0D, CHR 0x20, CHR 0xA0]"

definition trim :: "string \<Rightarrow> string" where
  "trim s = rev (dropWhile is_ws (rev (dropWhile is_ws s)))"

text \<open>\<^verbatim>\<open>s.replace(/ /g, '_')\<close>\<close>

definition replace_spaces :: "string \<Rightarrow> string" where
  "replace_spaces s = map (\<lambda>c. if c = CHR '' '' then CHR ''_'' else c) s"

text \<open>
  \<^verbatim>\<open>s.split(sep)\<close> with a string separator: the pieces between the successive,
  non-overlapping occurrences of \<open>sep\<close>, found from the left. An empty separator splits
  into code units, and the empty string then gives no piece at all.
\<close>

function splitOn :: "string \<Rightarrow> string \<Rightarrow> string \<Rightarrow> string list" where
  "splitOn sep acc [] = [rev acc]"
| "splitOn sep acc (c # cs) =
     (if sep \<noteq> [] \<and> prefix sep (c # cs)
      then rev acc # splitOn sep [] (drop (length sep) (c # cs))
      else splitOn sep (c # acc) cs)"
  by pat_completeness auto
termination
  by (relation "measure (\<lambda>(sep, acc, s). length s)") auto

definition split_js :: "string \<Rightarrow> string \<Rightarrow> string list" where
  "split_js s sep = (if sep = [] then map (\<lambda>c. [c]) s else splitOn sep [] s)"

text \<open>\<^verbatim>\<open>xs.join(sep)\<close>\<close>

fun join_js :: "string \<Rightarrow> string list \<Rightarrow> string" where
  "join_js sep [] = []"
| "join_js sep [x] = x"
| "join_js sep (x # y # ys) = x @ sep @ join_js sep (y # ys)"

section \<open>The process and the host\<close>

text \<open>
  The process-wide state the agent reads and writes: the environment table
  (\<^verbatim>\<open>process.env\<close>), the platform name (\<^verbatim>\<open>process.platform\<close>), the working
  directory (\<^verbatim>\<open>process.cwd()\<close>), the file system, and what the host's logging calls
  have received. The four logging methods are abstract in the base class; a host is
  modelled as recording each message with its level.
\<close>

datatype level = Debug | Info | Warn | Err

datatype entry = FileE string | DirE

type_synonym fpath = "string list"

record world =
  env :: "string \<rightharpoonup> string"
  platform :: string
  cwd :: string
  files :: "(fpath \<times> entry) list"
  logged :: "(level \<times> string) list"

record agent =
  agentName :: string
  sourceDirVariable :: string
  tempDirVariable :: string
  cacheDirVariable :: string

text \<open>A thrown \<^verbatim>\<open>Error\<close> with its message, or a rejected file-system call.\<close>

datatype errno = ENOENT | ENOTDIR | EEXIST | EACCES
  | ERR_FS_CP_EINVAL | ERR_FS_CP_DIR_TO_NON_DIR | ERR_FS_CP_NON_DIR_TO_DIR | ERR_FS_CP_EEXIST

datatype error = Error string | SystemError errno string

definition debug :: "string \<Rightarrow> world \<Rightarrow> world" where
  "debug message w = w\<lparr>logged := logged w @ [(Debug, message)]\<rparr>"

definition info :: "string \<Rightarrow> world \<Rightarrow> world" where
  "info message w = w\<lparr>logged := logged w @ [(Info, message)]\<rparr>"

text \<open>
  \<^verbatim>\<open>process.env[name]\<close>. On Windows two names that differ only in the case of their
  letters are the same variable, which is modelled by keeping every name of the table
  folded: the letters \<^verbatim>\<open>a\<close> to \<^verbatim>\<open>z\<close> and the letters from \<^verbatim>\<open>U+00E0\<close> to \<^verbatim>\<open>U+00FE\<close>
  (without the division sign \<^verbatim>\<open>U+00F7\<close>) are replaced by their capitals. No other two
  code units below 256 are the same letter in two cases.
\<close>

definition lower_letters :: string where
  "lower_letters =
     ''abcdefghijklmnopqrstuvwxyz''
     @ [CHR 0xE0, CHR 0xE1, CHR 0xE2, CHR 0xE3, CHR 0xE4, CHR 0xE5, CHR 0xE6, CHR 0xE7,
        CHR 0xE8, CHR 0xE9, CHR 0xEA, CHR 0xEB, CHR 0xEC, CHR 0xED, CHR 0xEE, CHR 0xEF,
        CHR 0xF0, CHR 0xF1, CHR 0xF2, CHR 0xF3, CHR 0xF4, CHR 0xF5, CHR 0xF6,
        CHR 0xF8, CHR 0xF9, CHR 0xFA, CHR 0xFB, CHR 0xFC, CHR 0xFD, CHR 0xFE]"

definition capital_letters :: string where
  "capital_letters =
     ''ABCDEFGHIJKLMNOPQRSTUVWXYZ''
     @ [CHR 0xC0, CHR 0xC1, CHR 0xC2, CHR 0xC3, CHR 0xC4, CHR 0xC5, CHR 0xC6, CHR 0xC7,
        CHR 0xC8, CHR 0xC9, CHR 0xCA, CHR 0xCB, CHR 0xCC, CHR 0xCD, CHR 0xCE, CHR 0xCF,
        CHR 0xD0, CHR 0xD1, CHR 0xD2, CHR 0xD3, CHR 0xD4, CHR 0xD5, CHR 0xD6,
        CHR 0xD8, CHR 0xD9, CHR 0xDA, CHR 0xDB, CHR 0xDC, CHR 0xDD, CHR 0xDE]"

definition fold_case :: "string \<Rightarrow> string" where
  "fold_case name =
     map (\<lambda>c. case map_of (zip lower_letters capital_letters) c of Some u \<Rightarrow> u | None \<Rightarrow> c)
       name"

definition env_key :: "world \<Rightarrow> string \<Rightarrow> string" where
  "env_key w name = (if platform w = ''win32'' then fold_case name else name)"

definition env_get :: "world \<Rightarrow> string \<Rightarrow> string option" where
  "env_get w name = env w (env_key w name)"

definition env_set :: "string \<Rightarrow> string \<Rightarrow> world \<Rightarrow> world" where
  "env_set name v w = w\<lparr>env := (env w)(env_key w name \<mapsto> v)\<rparr>"

section \<open>Variable and input accessors\<close>

text \<open>\<^verbatim>\<open>process.env[name] || ''\<close>: an unset and an empty variable both give the empty string.\<close>

definition or_empty :: "string option \<Rightarrow> string" where
  "or_empty v = (case v of None \<Rightarrow> [] | Some s \<Rightarrow> s)"

definition getVariable :: "string \<Rightarrow> world \<Rightarrow> string \<times> world" where
  "getVariable name w =
     (let v = trim (or_empty (env_get w name));
          w' = debug (''getVariable - '' @ name @ '': '' @ v) w
      in (trim v, w'))"

text \<open>
  \<^verbatim>\<open>input.replace(/ /g, '_').toUpperCase()\<close>, with \<^verbatim>\<open>toUpperCase\<close> the parameter: every
  function of this section that reads an input takes it as its first argument.
\<close>

definition inputProp :: "(string \<Rightarrow> string) \<Rightarrow> string \<Rightarrow> string" where
  "inputProp toUpperCase input = toUpperCase (replace_spaces input)"

definition getInput ::
    "(string \<Rightarrow> string) \<Rightarrow> string \<Rightarrow> bool \<Rightarrow> world \<Rightarrow> (error + string) \<times> world" where
  "getInput toUpperCase input required w =
     (let (val, w') = getVariable (''INPUT_'' @ inputProp toUpperCase input) w
      in if required \<and> val = []
         then (Inl (Error (''Input required and not supplied: ''
                             @ inputProp toUpperCase input)), w')
         else (Inr (trim val), w'))"

text \<open>
  The callback given to \<^verbatim>\<open>filter\<close> returns \<^verbatim>\<open>x.trim()\<close> for a non-empty \<open>x\<close> and
  nothing otherwise; \<^verbatim>\<open>filter\<close> keeps \<open>x\<close> when the returned value is truthy, that is, a
  non-empty string.
\<close>

definition keep_cb :: "string \<Rightarrow> string option" where
  "keep_cb x = (if x \<noteq> [] then Some (trim x) else None)"

definition truthy :: "string option \<Rightarrow> bool" where
  "truthy r = (case r of None \<Rightarrow> False | Some s \<Rightarrow> s \<noteq> [])"

definition getDelimitedInput ::
    "(string \<Rightarrow> string) \<Rightarrow> string \<Rightarrow> string \<Rightarrow> bool \<Rightarrow> world
      \<Rightarrow> (error + string list) \<times> world" where
  "getDelimitedInput toUpperCase input delimiter required w =
     (case getInput toUpperCase input required w of
        (Inl e, w') \<Rightarrow> (Inl e, w')
      | (Inr v, w') \<Rightarrow> (Inr (filter (\<lambda>x. truthy (keep_cb x)) (split_js v delimiter)), w'))"

definition getListInput ::
    "(string \<Rightarrow> string) \<Rightarrow> string \<Rightarrow> bool \<Rightarrow> world \<Rightarrow> (error + string list) \<times> world" where
  "getListInput toUpperCase input required w =
     getDelimitedInput toUpperCase input [CHR 0x0A] required w"

text \<open>A string is blank when it has no character other than white space.\<close>

definition blank :: "string \<Rightarrow> bool" where
  "blank x \<longleftrightarrow> list_all is_ws x"

section \<open>Expanding variable references\<close>

text \<open>
  The pattern of \<^verbatim>\<open>getExpandedString\<close> is
  \<^verbatim>\<open>/\$([a-zA-Z_][a-zA-Z0-9_]*|{([a-zA-Z_][a-zA-Z0-9_]*)})/g\<close>.
  \<open>match_ref\<close> is the match of what follows the dollar sign, tried at one position: the
  captured name and the number of characters the match takes. The first alternative is
  a name; the second a name in braces. A star is greedy, and giving characters back
  never helps either alternative: after a shorter name comes a name character, which
  is no closing brace.
\<close>

definition is_name_start :: "char \<Rightarrow> bool" where
  "is_name_start c \<longleftrightarrow>
     c \<in> set ''abcdefghijklmnopqrstuvwxyzABCDEFGHIJKLMNOPQRSTUVWXYZ_''"

definition is_name_char :: "char \<Rightarrow> bool" where
  "is_name_char c \<longleftrightarrow> is_name_start c \<or> c \<in> set ''0123456789''"

definition match_ref :: "string \<Rightarrow> (string \<times> nat) option" where
  "match_ref cs =
     (case cs of
        [] \<Rightarrow> None
      | c # rest \<Rightarrow>
          if is_name_start c
          then (let whole = takeWhile is_name_char cs in Some (whole, length whole))
          else if c = CHR ''{''
          then (case rest of
                  [] \<Rightarrow> None
                | b # _ \<Rightarrow>
                    if is_name_start b
                    then (let braced = takeWhile is_name_char rest
                          in case dropWhile is_name_char rest of
                               [] \<Rightarrow> None
                             | d # _ \<Rightarrow>
                                 if d = CHR ''}''
                                 then Some (braced, length braced + 2)
                                 else None)
                    else None)
          else None)"

text \<open>
  The callback: the value of the upper-cased name, or the empty string. A name has
  only ASCII letters, digits and underscores.
\<close>

definition ref_value :: "world \<Rightarrow> string \<Rightarrow> string" where
  "ref_value w name =
     (case env_get w (toUpperCase_ascii name) of Some v \<Rightarrow> v | None \<Rightarrow> [])"

text \<open>
  \<^verbatim>\<open>pattern.replace(regex, callback)\<close> with the global flag: the pattern is read from
  the left; at a match the callback's value is written and reading goes on after the
  match, in the pattern, never in the value written.
\<close>

function expand :: "world \<Rightarrow> string \<Rightarrow> string" where
  "expand w [] = []"
| "expand w (c # cs) =
     (if c = CHR ''$''
      then (case match_ref cs of
              Some (name, k) \<Rightarrow> ref_value w name @ expand w (drop k cs)
            | None \<Rightarrow> c # expand w cs)
      else c # expand w cs)"
  by pat_completeness auto
termination
  by (relation "measure (\<lambda>(w, s). length s)") auto

definition getExpandedString :: "string \<Rightarrow> world \<Rightarrow> string \<times> world" where
  "getExpandedString pattern w =
     (let expanded = expand w pattern
      in (expanded, debug (''getExpandedString - '' @ pattern @ '': '' @ expanded) w))"

text \<open>A name as the pattern admits it.\<close>

definition is_name :: "string \<Rightarrow> bool" where
  "is_name n \<longleftrightarrow> n \<noteq> [] \<and> is_name_start (hd n) \<and> list_all is_name_char n"

section \<open>Paths\<close>

text \<open>
  \<^verbatim>\<open>node:path\<close> is a library of the runtime, not of this repository. Its POSIX
  functions are modelled after their implementation: \<open>normalizeString\<close> reads the
  segments between slashes, drops the empty ones and \<^verbatim>\<open>.\<close>, and lets \<^verbatim>\<open>..\<close> take the
  segment before it away; above the root of a relative path \<^verbatim>\<open>..\<close> is kept.
\<close>

definition norm_step :: "bool \<Rightarrow> string list \<Rightarrow> string \<Rightarrow> string list" where
  "norm_step allowAboveRoot res seg =
     (if seg = [] \<or> seg = ''.'' then res
      else if seg = ''..''
      then (if res \<noteq> [] \<and> last res \<noteq> ''..'' then butlast res
            else if allowAboveRoot then res @ [''..''] else res)
      else res @ [seg])"

definition normalizeString :: "string \<Rightarrow> bool \<Rightarrow> string" where
  "normalizeString path allowAboveRoot =
     join_js ''/'' (foldl (norm_step allowAboveRoot) [] (split_js path ''/''))"

definition isAbsolute :: "string \<Rightarrow> bool" where
  "isAbsolute path \<longleftrightarrow> path \<noteq> [] \<and> hd path = CHR ''/''"

definition path_normalize :: "string \<Rightarrow> string" where
  "path_normalize path =
     (if path = [] then ''.''
      else
        (let trailingSeparator = (last path = CHR ''/'');
             p = normalizeString path (\<not> isAbsolute path)
         in if p = []
            then (if isAbsolute path then ''/'' else if trailingSeparator then ''./'' else ''.'')
            else (let p' = (if trailingSeparator then p @ ''/'' else p)
                  in if isAbsolute path then ''/'' @ p' else p')))"

text \<open>\<^verbatim>\<open>path.resolve(p)\<close> with its one argument, against the working directory.\<close>

definition path_resolve :: "world \<Rightarrow> string \<Rightarrow> string" where
  "path_resolve w p =
     (let r0 = (if p = [] then [] else p @ ''/'');
          resolvedPath = (if isAbsolute p then r0 else cwd w @ ''/'' @ r0);
          resolvedAbsolute = (isAbsolute p \<or> isAbsolute (cwd w));
          r = normalizeString resolvedPath (\<not> resolvedAbsolute)
      in if resolvedAbsolute then ''/'' @ r
         else if r \<noteq> [] then r else ''.'')"

definition path_join :: "string list \<Rightarrow> string" where
  "path_join args =
     (let parts = filter (\<lambda>a. a \<noteq> []) args
      in if parts = [] then ''.'' else path_normalize (join_js ''/'' parts))"

definition path_delimiter :: "world \<Rightarrow> string" where
  "path_delimiter w = (if platform w = ''win32'' then '';'' else '':'')"

definition getVariableAsPath :: "string \<Rightarrow> world \<Rightarrow> string \<times> world" where
  "getVariableAsPath name w =
     (let (v, w') = getVariable name w in (path_resolve w' (path_normalize v), w'))"

definition cacheDir :: "agent \<Rightarrow> world \<Rightarrow> string \<times> world" where
  "cacheDir ag w = getVariableAsPath (cacheDirVariable ag) w"

section \<open>The file system\<close>

text \<open>
  \<^verbatim>\<open>node:fs/promises\<close> is modelled on a table of entries: each location (the list
  of the names from the root, the root being the empty list) that exists is a directory
  or a file with its content. The first entry of a location is the one that counts.
  There are no links and no permissions, and a call names its location as
  \<^verbatim>\<open>path.resolve\<close> would, from the text of the path alone. The operating system
  walks a path instead, so it refuses some paths that this model accepts: the empty
  path, a file named with a slash at its end, and \<^verbatim>\<open>..\<close> after a name that is no
  directory. The model is used for the tool cache, whose destination comes out of
  \<^verbatim>\<open>path.join\<close> and is none of these; what is stated about \<open>directoryExists\<close> and
  \<open>fileExists\<close> themselves is stated over any two calls, not over this model.
\<close>

definition fs_loc :: "world \<Rightarrow> string \<Rightarrow> fpath" where
  "fs_loc w p = filter (\<lambda>c. c \<noteq> []) (split_js (path_resolve w p) ''/'')"

definition lookup_fs :: "world \<Rightarrow> fpath \<Rightarrow> entry option" where
  "lookup_fs w q = map_of (files w) q"

definition strict_prefixes :: "fpath \<Rightarrow> fpath list" where
  "strict_prefixes q = butlast (prefixes q)"

text \<open>In a file system every location that exists lies in directories that exist.\<close>

definition wf_fs :: "(fpath \<times> entry) list \<Rightarrow> bool" where
  "wf_fs fs \<longleftrightarrow>
     list_all (\<lambda>(q, e). list_all (\<lambda>r. map_of fs r = Some DirE) (strict_prefixes q)) fs"

definition isDirectory :: "entry \<Rightarrow> bool" where
  "isDirectory e \<longleftrightarrow> e = DirE"

definition isFile :: "entry \<Rightarrow> bool" where
  "isFile e \<longleftrightarrow> (case e of FileE _ \<Rightarrow> True | DirE \<Rightarrow> False)"

definition fs_access :: "string \<Rightarrow> world \<Rightarrow> error + unit" where
  "fs_access p w =
     (case lookup_fs w (fs_loc w p) of
        None \<Rightarrow> Inl (SystemError ENOENT p)
      | Some _ \<Rightarrow> Inr ())"

definition fs_stat :: "string \<Rightarrow> world \<Rightarrow> error + entry" where
  "fs_stat p w =
     (case lookup_fs w (fs_loc w p) of
        None \<Rightarrow> Inl (SystemError ENOENT p)
      | Some e \<Rightarrow> Inr e)"

text \<open>
  \<^verbatim>\<open>directoryExists\<close> and \<^verbatim>\<open>fileExists\<close>: the two awaited calls inside \<^verbatim>\<open>try\<close>, and
  the \<^verbatim>\<open>catch\<close> that answers false. They are first written over any pair of calls,
  whatever makes those fail, and then over the file system above.
\<close>

definition directoryExists_with ::
    "(string \<Rightarrow> error + unit) \<Rightarrow> (string \<Rightarrow> error + entry) \<Rightarrow> string \<Rightarrow> bool" where
  "directoryExists_with access stat dir =
     (case access dir of
        Inl _ \<Rightarrow> False
      | Inr _ \<Rightarrow> (case stat dir of Inl _ \<Rightarrow> False | Inr st \<Rightarrow> isDirectory st))"

definition fileExists_with ::
    "(string \<Rightarrow> error + unit) \<Rightarrow> (string \<Rightarrow> error + entry) \<Rightarrow> string \<Rightarrow> bool" where
  "fileExists_with access stat file =
     (case access file of
        Inl _ \<Rightarrow> False
      | Inr _ \<Rightarrow> (case stat file of Inl _ \<Rightarrow> False | Inr st \<Rightarrow> isFile st))"

definition directoryExists :: "string \<Rightarrow> world \<Rightarrow> bool" where
  "directoryExists dir w = directoryExists_with (\<lambda>p. fs_access p w) (\<lambda>p. fs_stat p w) dir"

definition fileExists :: "string \<Rightarrow> world \<Rightarrow> bool" where
  "fileExists file w = fileExists_with (\<lambda>p. fs_access p w) (\<lambda>p. fs_stat p w) file"

text \<open>
  \<^verbatim>\<open>fs.rm(dir, {recursive, force})\<close>: the location and all below it are gone; a
  location that does not exist is no error.
\<close>

definition fs_rm :: "string \<Rightarrow> world \<Rightarrow> world" where
  "fs_rm p w = w\<lparr>files := filter (\<lambda>(q, e). \<not> prefix (fs_loc w p) q) (files w)\<rparr>"

definition removeDirectory :: "string \<Rightarrow> world \<Rightarrow> world" where
  "removeDirectory dir w = fs_rm dir w"

text \<open>
  \<^verbatim>\<open>fs.mkdir(dir, {recursive: true})\<close>: every directory on the way that is missing is
  made; a file on the way, or at the end, is an error.
\<close>

definition mkdir_p :: "(fpath \<times> entry) list \<Rightarrow> fpath \<Rightarrow> errno + (fpath \<times> entry) list" where
  "mkdir_p fs d =
     (if list_ex (\<lambda>r. case map_of fs r of Some (FileE _) \<Rightarrow> True | _ \<Rightarrow> False)
           (strict_prefixes d)
      then Inl ENOTDIR
      else (case map_of fs d of
              Some (FileE _) \<Rightarrow> Inl EEXIST
            | _ \<Rightarrow> Inr (map (\<lambda>r. (r, DirE)) (filter (\<lambda>r. map_of fs r = None) (prefixes d)) @ fs)))"

definition fs_mkdir :: "string \<Rightarrow> world \<Rightarrow> error + world" where
  "fs_mkdir p w =
     (case mkdir_p (files w) (fs_loc w p) of
        Inl en \<Rightarrow> Inl (SystemError en p)
      | Inr fs' \<Rightarrow> Inr (w\<lparr>files := fs'\<rparr>))"

text \<open>
  \<^verbatim>\<open>fs.cp(src, dest, {recursive: true, force: true})\<close>. The checks come first: the
  source exists; source and destination are not the same; a directory is not copied onto
  a file, nor a file onto a directory; the destination is not inside the source. Then the
  destination's parent is made if it is missing, and the source is copied: a file is
  written over the destination; a directory is copied entry by entry into the
  destination, where a file meeting a directory, or a directory a file, is an error.
  A copy that fails half way is modelled as one that has written nothing.
\<close>

definition copy_entries ::
    "(fpath \<times> entry) list \<Rightarrow> fpath \<Rightarrow> fpath \<Rightarrow> (fpath \<times> entry) list \<Rightarrow> (fpath \<times> entry) list" where
  "copy_entries fs s d xs =
     map (\<lambda>(q, e). (d @ drop (length s) q, e))
       (filter (\<lambda>(q, e). prefix s q \<and> map_of fs q = Some e) xs)"

definition clash :: "entry \<Rightarrow> entry option \<Rightarrow> bool" where
  "clash e t =
     (case t of
        None \<Rightarrow> False
      | Some DirE \<Rightarrow> isFile e
      | Some (FileE _) \<Rightarrow> isDirectory e)"

definition cp_r :: "(fpath \<times> entry) list \<Rightarrow> fpath \<Rightarrow> fpath \<Rightarrow> errno + (fpath \<times> entry) list" where
  "cp_r fs s d =
     (case map_of fs s of
        None \<Rightarrow> Inl ENOENT
      | Some se \<Rightarrow>
          if s = d then Inl ERR_FS_CP_EINVAL
          else if isDirectory se \<and> (case map_of fs d of Some (FileE _) \<Rightarrow> True | _ \<Rightarrow> False)
          then Inl ERR_FS_CP_DIR_TO_NON_DIR
          else if isFile se \<and> map_of fs d = Some DirE
          then Inl ERR_FS_CP_NON_DIR_TO_DIR
          else if prefix s d then Inl ERR_FS_CP_EINVAL
          else (case mkdir_p fs (butlast d) of
                  Inl en \<Rightarrow> Inl en
                | Inr fs' \<Rightarrow>
                    (let new = copy_entries fs' s d fs'
                     in if list_ex (\<lambda>(t, e). clash e (map_of fs' t)) new
                        then Inl ERR_FS_CP_EEXIST
                        else Inr (new @ fs'))))"

definition fs_cp :: "string \<Rightarrow> string \<Rightarrow> world \<Rightarrow> error + world" where
  "fs_cp src dest w =
     (case cp_r (files w) (fs_loc w src) (fs_loc w dest) of
        Inl en \<Rightarrow> Inl (SystemError en src)
      | Inr fs' \<Rightarrow> Inr (w\<lparr>files := fs'\<rparr>))"

section \<open>The tool cache\<close>

text \<open>
  \<^verbatim>\<open>semver.clean\<close> belongs to the \<^verbatim>\<open>semver\<close> package and is a parameter here: it
  gives the cleaned version, or nothing for a string that is no version. Then
  \<^verbatim>\<open>semver.clean(version) || version\<close> is:
\<close>

definition clean_or :: "(string \<Rightarrow> string option) \<Rightarrow> string \<Rightarrow> string" where
  "clean_or semver_clean version =
     (case semver_clean version of
        None \<Rightarrow> version
      | Some c \<Rightarrow> if c \<noteq> [] then c else version)"

definition cacheToolDirectory ::
    "agent \<Rightarrow> (string \<Rightarrow> string option) \<Rightarrow> string \<Rightarrow> string \<Rightarrow> string \<Rightarrow> world
      \<Rightarrow> (error + string) \<times> world" where
  "cacheToolDirectory ag semver_clean sourceDir tool version w =
     (if tool = [] then (Inl (Error ''tool is a required parameter''), w)
      else if version = [] then (Inl (Error ''version is a required parameter''), w)
      else if sourceDir = [] then (Inl (Error ''sourceDir is a required parameter''), w)
      else
        (let (cacheRoot, w1) = cacheDir ag w
         in if cacheRoot = [] then (Inr [], debug ''cache root not set'' w1)
            else
              (let version' = clean_or semver_clean version;
                   destPath = path_join [cacheRoot, tool, version'];
                   w2 = (if directoryExists destPath w1
                         then removeDirectory destPath
                                (debug (''Destination directory '' @ destPath
                                          @ '' already exists, removing'') w1)
                         else w1);
                   w3 = debug (''Copying '' @ sourceDir @ '' to '' @ destPath) w2
               in case fs_mkdir destPath w3 of
                    Inl e \<Rightarrow> (Inl e, w3)
                  | Inr w4 \<Rightarrow>
                      (case fs_cp sourceDir destPath w4 of
                         Inl e \<Rightarrow> (Inl e, w4)
                       | Inr w5 \<Rightarrow>
                           (Inr destPath,
                            debug (''Caching '' @ tool @ ''@'' @ version' @ '' from '' @ sourceDir)
                              w5)))))"

definition findLocalTool ::
    "agent \<Rightarrow> (string \<Rightarrow> string option) \<Rightarrow> string \<Rightarrow> string \<Rightarrow> world
      \<Rightarrow> (error + string option) \<times> world" where
  "findLocalTool ag semver_clean toolName versionSpec w =
     (if toolName = [] then (Inl (Error ''toolName is a required parameter''), w)
      else if versionSpec = [] then (Inl (Error ''versionSpec is a required parameter''), w)
      else
        (let (cacheRoot, w1) = cacheDir ag w
         in if cacheRoot = [] then (Inr None, debug ''cache root not set'' w1)
            else
              (let versionSpec' = clean_or semver_clean versionSpec;
                   w2 = info (''Looking for local tool '' @ toolName @ ''@'' @ versionSpec') w1;
                   toolPath = path_join [cacheRoot, toolName, versionSpec']
               in if \<not> directoryExists toolPath w2
                  then (Inr None, info (''Directory '' @ toolPath @ '' not found'') w2)
                  else (Inr (Some toolPath),
                        info (''Found tool '' @ toolName @ ''@'' @ versionSpec' @ '' at ''
                                @ toolPath) w2))))"

section \<open>Running a process\<close>

text \<open>
  What \<^verbatim>\<open>error.code\<close> can hold when the promise of \<^verbatim>\<open>child_process.exec\<close> is
  rejected: the exit code of the child, the name of a system error when the child could
  not be started or its output passed the buffer, or \<^verbatim>\<open>null\<close> when a signal ended it.
\<close>

datatype code_value = ExitCode int | ErrorName string | NullCode

record child_error =
  err_message :: string
  err_code :: code_value
  err_stdout :: string
  err_stderr :: string

record ExecResult =
  code :: code_value
  error :: "child_error option"
  stderr :: string
  stdout :: string

text \<open>
  The promisified \<^verbatim>\<open>child_process.exec\<close>, with the buffer bound of 10 MiB, is the
  parameter \<open>child_exec\<close>: given the command line it resolves with the two captured
  streams or rejects with an error. \<open>exec\<close> awaits it inside \<^verbatim>\<open>try\<close>; its own result
  is a sum, so that a rejection \<open>exec\<close> let through would be an \<open>Inl\<close>.
\<close>

definition try_catch :: "('e + 'a) \<Rightarrow> ('e \<Rightarrow> 'e + 'a) \<Rightarrow> 'e + 'a" where
  "try_catch body handler = (case body of Inl e \<Rightarrow> handler e | Inr r \<Rightarrow> Inr r)"

definition exec ::
    "(string \<Rightarrow> child_error + string \<times> string) \<Rightarrow> string \<Rightarrow> string list
      \<Rightarrow> child_error + ExecResult" where
  "exec child_exec cmd args =
     try_catch
       (case child_exec (cmd @ '' '' @ join_js '' '' args) of
          Inl e \<Rightarrow> Inl e
        | Inr (out, err) \<Rightarrow>
            Inr \<lparr>code = ExitCode 0, error = None, stderr = err, stdout = out\<rparr>)
       (\<lambda>e. Inr \<lparr>code = err_code e, error = Some e, stderr = err_stderr e,
                 stdout = err_stdout e\<rparr>)"

section \<open>Finding an executable\<close>

text \<open>
  Modelled from the spec: \<^verbatim>\<open>lookPath\<close> of \<^verbatim>\<open>./lookPath\<close>, which the sources at hand
  import but do not contain. By the specification it searches each directory of the
  process PATH, split at the platform's delimiter, for a match of the tool's name; on
  Windows it also tries the name with each executable extension, in the order of a list
  that can be configured and is \<^verbatim>\<open>.COM\<close>, \<^verbatim>\<open>.EXE\<close>, \<^verbatim>\<open>.BAT\<close>, \<^verbatim>\<open>.CMD\<close> by default,
  comparing with each entry of the directory without regard to case. It gives the
  first match, or nothing when PATH is unset or no directory has one, and it only
  probes for existence.

  The probe is the parameter \<open>probe\<close>: it holds of a path when the directory named
  there has an entry matching the last name, as the platform compares names. The
  configured list of extensions is the parameter \<open>configured\<close>; \<open>which\<close> calls
  \<^verbatim>\<open>lookPath(tool)\<close> with no option, so with the default list. A directory and a name
  are put together by \<^verbatim>\<open>path.join\<close>, which this theory has for POSIX only: what is
  stated about the locator is stated for a host other than Windows.
\<close>

definition path_env_name :: "world \<Rightarrow> string" where
  "path_env_name w = (if platform w = ''win32'' then ''Path'' else ''PATH'')"

definition executable_extensions :: "world \<Rightarrow> string list option \<Rightarrow> string list" where
  "executable_extensions w configured =
     (if platform w = ''win32''
      then Nil # (case configured of
                    None \<Rightarrow> [''.COM'', ''.EXE'', ''.BAT'', ''.CMD'']
                  | Some exts \<Rightarrow> exts)
      else [Nil])"

definition search_dirs :: "world \<Rightarrow> string list option" where
  "search_dirs w =
     (case env_get w (path_env_name w) of
        None \<Rightarrow> None
      | Some p \<Rightarrow> Some (split_js p (path_delimiter w)))"

definition candidates ::
    "world \<Rightarrow> string list option \<Rightarrow> string \<Rightarrow> string list \<Rightarrow> string list" where
  "candidates w configured tool dirs =
     concat (map (\<lambda>dir. map (\<lambda>ext. path_join [dir, tool @ ext])
                          (executable_extensions w configured)) dirs)"

definition lookPath ::
    "(string \<Rightarrow> bool) \<Rightarrow> string list option \<Rightarrow> string \<Rightarrow> world \<Rightarrow> string option" where
  "lookPath probe configured tool w =
     (case search_dirs w of
        None \<Rightarrow> None
      | Some dirs \<Rightarrow> find probe (candidates w configured tool dirs))"

text \<open>
  \<open>which\<close>, from the source. The probe of the locator it calls is its first argument.
\<close>

definition which :: "(string \<Rightarrow> bool) \<Rightarrow> string \<Rightarrow> world \<Rightarrow> (error + string) \<times> world" where
  "which probe tool w =
     (let w1 = debug (''looking for tool '' @ [CHR 0x27] @ tool @ [CHR 0x27] @ '' in PATH'') w
      in case lookPath probe None tool w1 of
           None \<Rightarrow> (Inl (Error (''Unable to locate executable file: '' @ tool)), w1)
         | Some found \<Rightarrow>
             if found \<noteq> []
             then (let toolPath = path_resolve w1 found
                   in (Inr toolPath,
                       debug (''found tool '' @ [CHR 0x27] @ tool @ [CHR 0x27] @ '' in PATH: ''
                                @ toolPath) w1))
             else (Inl (Error (''Unable to locate executable file: '' @ tool)), w1))"

section \<open>Extending the search path\<close>

text \<open>
  A template literal or a concatenation writes a variable that is not set as the
  text \<^verbatim>\<open>undefined\<close>.
\<close>

definition js_text :: "string option \<Rightarrow> string" where
  "js_text v = (case v of None \<Rightarrow> ''undefined'' | Some s \<Rightarrow> s)"

definition addPath :: "string \<Rightarrow> world \<Rightarrow> world" where
  "addPath inputPath w =
     (let envName = (if platform w = ''win32'' then ''Path'' else ''PATH'');
          newPath = inputPath @ path_delimiter w @ js_text (env_get w envName);
          w1 = debug (''new Path: '' @ newPath) w;
          w2 = env_set envName newPath w1;
          w3 = env_set ''Path'' newPath w2
      in info (''Updated PATH: '' @ js_text (env_get w3 envName)) w3)"

section \<open>Example hosts\<close>

definition example_agent :: agent where
  "example_agent =
     \<lparr>agentName = ''Local'', sourceDirVariable = ''AGENT_SOURCE_DIR'',
      tempDirVariable = ''AGENT_TEMP_DIR'', cacheDirVariable = ''AGENT_TOOLS_DIR''\<rparr>"

text \<open>A cleaner for the examples: a version may start with \<^verbatim>\<open>v\<close>.\<close>

definition example_clean :: "string \<Rightarrow> string option" where
  "example_clean v =
     (case trim v of
        [] \<Rightarrow> None
      | c # cs \<Rightarrow> if c = CHR ''v'' then Some cs else Some (c # cs))"

definition example_files :: "(fpath \<times> entry) list" where
  "example_files =
     [([], DirE),
      ([''work''], DirE),
      ([''src''], DirE),
      ([''src'', ''bin''], DirE),
      ([''src'', ''bin'', ''grm''], FileE ''#!run''),
      ([''src'', ''readme''], FileE ''text''),
      ([''new''], DirE),
      ([''new'', ''bin''], DirE),
      ([''new'', ''bin'', ''grm''], FileE ''#!run''),
      ([''cache''], DirE),
      ([''cache'', ''tool''], DirE),
      ([''cache'', ''tool'', ''1.2.3''], DirE),
      ([''cache'', ''tool'', ''1.2.3'', ''old''], FileE ''stale'')]"

definition example_world :: world where
  "example_world =
     \<lparr>env = [''AGENT_TOOLS_DIR'' \<mapsto> ''/cache'', ''PATH'' \<mapsto> ''/usr/bin:/bin'',
             ''HOME'' \<mapsto> ''/h'', ''USER'' \<mapsto> ''u'', ''OUTER'' \<mapsto> ''$USER'',
             ''INPUT_MY_KEY'' \<mapsto> ''  some value '',
             ''INPUT_BLANK'' \<mapsto> '' '',
             ''INPUT_LINES'' \<mapsto> [CHR ''a'', CHR 0x0A, CHR ''b'', CHR 0x0A, CHR 0x0A, CHR ''c'']],
      platform = ''linux'', cwd = ''/work'', files = example_files, logged = []\<rparr>"

text \<open>The same host with no cache directory configured.\<close>

definition uncached_world :: world where
  "uncached_world = example_world\<lparr>env := (env example_world)(''AGENT_TOOLS_DIR'' := None)\<rparr>"

text \<open>
  Child processes for the examples: \<^verbatim>\<open>true\<close> succeeds, \<^verbatim>\<open>false\<close> exits with 1,
  \<^verbatim>\<open>sleep\<close> is ended by a signal, and nothing else can be started.
\<close>

definition example_child_exec :: "string \<Rightarrow> child_error + string \<times> string" where
  "example_child_exec line =
     (if line = ''true '' then Inr (''out'', [])
      else if line = ''false '' then
        Inl \<lparr>err_message = ''Command failed: false '', err_code = ExitCode 1,
             err_stdout = [], err_stderr = ''failed''\<rparr>
      else if line = ''sleep 100'' then
        Inl \<lparr>err_message = ''Command failed: sleep 100'', err_code = NullCode,
             err_stdout = [], err_stderr = []\<rparr>
      else
        Inl \<lparr>err_message = ''spawn ENOENT'', err_code = ErrorName ''ENOENT'',
             err_stdout = [], err_stderr = []\<rparr>)"


text \<open>A Windows host, where the variable is \<^verbatim>\<open>Path\<close> and the delimiter a semicolon.\<close>

definition windows_world :: world where
  "windows_world =
     \<lparr>env = [''PATH'' \<mapsto> ''C:/bin''], platform = ''win32'', cwd = ''/work'', files = [],
      logged = []\<rparr>"



text \<open>The example host after the tool has been cached from \<^verbatim>\<open>/src\<close>.\<close>

definition cached_world :: world where
  "cached_world =
     snd (cacheToolDirectory example_agent example_clean ''/src'' ''tool'' ''v1.2.3'' example_world)"

text \<open>
  Two states of the same host: the same environment, working directory and platform,
  with any files and any log.
\<close>

definition same_host :: "world \<Rightarrow> world \<Rightarrow> bool" where
  "same_host w w' \<longleftrightarrow> env w' = env w \<and> cwd w' = cwd w \<and> platform w' = platform w"

text \<open>
  File-system calls for the examples of the existence checks: \<^verbatim>\<open>/nowhere\<close> does not
  exist, \<^verbatim>\<open>/locked\<close> exists but may not be examined, \<^verbatim>\<open>/src/bin\<close> is a directory and
  every other path a file.
\<close>

definition example_access :: "string \<Rightarrow> error + unit" where
  "example_access p = (if p = ''/nowhere'' then Inl (SystemError ENOENT p) else Inr ())"

definition example_stat :: "string \<Rightarrow> error + entry" where
  "example_stat p =
     (if p = ''/nowhere'' then Inl (SystemError ENOENT p)
      else if p = ''/locked'' then Inl (SystemError EACCES p)
      else if p = ''/src/bin'' then Inr DirE
      else Inr (FileE ''text''))"

text \<open>
  A probe for the examples of the locator: the tool \<^verbatim>\<open>grm\<close> is in \<^verbatim>\<open>/new/bin\<close>, also
  when named from the working directory \<^verbatim>\<open>/work\<close>, and in \<^verbatim>\<open>/src/bin\<close>.
\<close>

definition example_probe :: "string \<Rightarrow> bool" where
  "example_probe c \<longleftrightarrow> c \<in> set [''/new/bin/grm'', ''../new/bin/grm'', ''/src/bin/grm'']"

section \<open>Properties\<close>

subsection \<open>Trimming\<close>

lemma all_dropWhile_iff: "(\<forall>x\<in>set (dropWhile P s). P x) \<longleftrightarrow> (\<forall>x\<in>set s. P x)"
proof
  assume a: "\<forall>x\<in>set (dropWhile P s). P x"
  have "dropWhile P s = []"
  proof (rule ccontr)
    assume n: "dropWhile P s \<noteq> []"
    then have "\<not> P (hd (dropWhile P s))" by (rule hd_dropWhile)
    moreover have "hd (dropWhile P s) \<in> set (dropWhile P s)" using n by simp
    ultimately show False using a by blast
  qed
  then show "\<forall>x\<in>set s. P x" by (simp add: dropWhile_eq_Nil_conv)
next
  assume "\<forall>x\<in>set s. P x"
  then show "\<forall>x\<in>set (dropWhile P s). P x" by (blast dest: set_dropWhileD)
qed

lemma trim_eq_Nil: "trim s = [] \<longleftrightarrow> blank s"
  by (simp add: trim_def blank_def list_all_iff dropWhile_eq_Nil_conv all_dropWhile_iff)

lemma dropWhile_fixed: "xs = [] \<or> \<not> P (hd xs) \<Longrightarrow> dropWhile P xs = xs"
  by (cases xs) auto

lemma trim_idem: "trim (trim s) = trim s"
proof (cases "dropWhile is_ws s")
  case Nil
  have "trim s = []" by (simp only: trim_def Nil rev.simps dropWhile.simps)
  moreover have "trim [] = []" by (simp add: trim_def)
  ultimately show ?thesis by (simp only:)
next
  case (Cons x t)
  then have nx: "\<not> is_ws x"
    using hd_dropWhile [of is_ws s] by simp
  define u where "u = dropWhile is_ws (rev t)"
  have u: "dropWhile is_ws (rev (x # t)) = u @ [x]"
    using nx by (simp add: dropWhile_append u_def dropWhile_eq_Nil_conv)
  have hu: "u = [] \<or> \<not> is_ws (hd u)"
    unfolding u_def using hd_dropWhile [of is_ws "rev t"] by blast
  have fu: "dropWhile is_ws (u @ [x]) = u @ [x]"
  proof (rule dropWhile_fixed)
    show "u @ [x] = [] \<or> \<not> is_ws (hd (u @ [x]))"
      using hu nx by (cases u) auto
  qed
  have t1: "trim s = x # rev u"
    by (simp only: trim_def Cons u) simp
  have "trim (x # rev u) = x # rev u"
    using nx fu by (simp add: trim_def)
  then show ?thesis by (simp add: t1)
qed

lemma getVariable_value: "fst (getVariable name w) = trim (or_empty (env_get w name))"
  by (simp add: getVariable_def Let_def trim_idem)

lemmas eval_string =
  toUpperCase_ascii_def toUpperCase_ascii_char_def is_ws_def trim_def
  replace_spaces_def split_js_def blank_def

lemmas eval_env = env_get_def env_key_def or_empty_def example_world_def

subsection \<open>Inputs\<close>

text \<open>
  Claim C3. Whatever function \<^verbatim>\<open>toUpperCase\<close> is, let \<open>v\<close> be the value of the
  environment variable that \<open>getInput\<close> reads for a key: the key with spaces turned
  into underscores, in upper case, after \<^verbatim>\<open>INPUT_\<close>; an unset variable counts as
  empty. If \<open>v\<close> is empty or all white space, a required input throws the error whose
  message names the transformed key. If \<open>v\<close> has a character that is no white space,
  \<open>getInput\<close> returns the trimmed \<open>v\<close>, required or not.
\<close>

theorem getInput_required_or_trimmed:
  assumes "v = or_empty (env_get w (''INPUT_'' @ inputProp toUpperCase input))"
  shows "(blank v \<longrightarrow>
            fst (getInput toUpperCase input True w)
              = Inl (Error (''Input required and not supplied: ''
                              @ inputProp toUpperCase input)))
       \<and> (\<not> blank v \<longrightarrow> fst (getInput toUpperCase input required w) = Inr (trim v))"
proof -
  obtain w' where g: "getVariable (''INPUT_'' @ inputProp toUpperCase input) w = (trim v, w')"
    using getVariable_value [of "''INPUT_'' @ inputProp toUpperCase input" w] assms
    by (metis prod.collapse)
  show ?thesis
    unfolding getInput_def g by (simp add: trim_eq_Nil trim_idem)
qed

theorem getInput_required_or_trimmed_witness:
  "blank (or_empty (env_get example_world (''INPUT_'' @ inputProp toUpperCase_ascii ''blank'')))
   \<and> fst (getInput toUpperCase_ascii ''blank'' True example_world)
       = Inl (Error ''Input required and not supplied: BLANK'')
   \<and> \<not> blank (or_empty (env_get example_world
                            (''INPUT_'' @ inputProp toUpperCase_ascii ''my key'')))
   \<and> fst (getInput toUpperCase_ascii ''my key'' True example_world) = Inr ''some value''
   \<and> fst (getInput fold_case [CHR 0xE9] True
             (example_world\<lparr>env := [''INPUT_'' @ [CHR 0xC9] \<mapsto> '' on '']\<rparr>)) = Inr ''on''"
  using getInput_required_or_trimmed
          [OF refl, where w = example_world and toUpperCase = toUpperCase_ascii
             and input = "''blank''" and required = True]
        getInput_required_or_trimmed
          [OF refl, where w = example_world and toUpperCase = toUpperCase_ascii
             and input = "''my key''" and required = True]
        getInput_required_or_trimmed
          [OF refl, where w = "example_world\<lparr>env := [''INPUT_'' @ [CHR 0xC9] \<mapsto> '' on '']\<rparr>"
             and toUpperCase = fold_case and input = "[CHR 0xE9]" and required = True]
  by (simp add: eval_string eval_env inputProp_def fold_case_def lower_letters_def
        capital_letters_def)

lemma truthy_keep_cb: "truthy (keep_cb x) \<longleftrightarrow> \<not> blank x"
  by (auto simp: truthy_def keep_cb_def trim_eq_Nil blank_def)

text \<open>
  Claim C9. \<open>getListInput\<close> is \<open>getDelimitedInput\<close> with the newline as delimiter.
  Unless the input is required and blank, \<open>getDelimitedInput\<close> returns the pieces of
  the trimmed value of the variable, split at the delimiter, that are not blank, in
  their order. For the value \<^verbatim>\<open>a\nb\n\nc\<close> the list is \<^verbatim>\<open>a\<close>, \<^verbatim>\<open>b\<close>, \<^verbatim>\<open>c\<close>. The
  variable is the one \<open>getInput\<close> reads, whatever function \<^verbatim>\<open>toUpperCase\<close> is.
\<close>

theorem getListInput_lines:
  assumes "raw = or_empty (env_get w (''INPUT_'' @ inputProp toUpperCase input))"
  shows "getListInput toUpperCase input required w
           = getDelimitedInput toUpperCase input [CHR 0x0A] required w
       \<and> (\<not> (required \<and> blank raw) \<longrightarrow>
            fst (getDelimitedInput toUpperCase input delimiter required w)
              = Inr (filter (\<lambda>x. \<not> blank x) (split_js (trim raw) delimiter)))
       \<and> (raw = [CHR ''a'', CHR 0x0A, CHR ''b'', CHR 0x0A, CHR 0x0A, CHR ''c''] \<longrightarrow>
            fst (getListInput toUpperCase input required w) = Inr [''a'', ''b'', ''c''])"
proof -
  obtain w' where g: "getVariable (''INPUT_'' @ inputProp toUpperCase input) w = (trim raw, w')"
    using getVariable_value [of "''INPUT_'' @ inputProp toUpperCase input" w] assms
    by (metis prod.collapse)
  have d: "\<not> (required \<and> blank raw) \<Longrightarrow>
             fst (getDelimitedInput toUpperCase input dl required w)
               = Inr (filter (\<lambda>x. \<not> blank x) (split_js (trim raw) dl))" for dl
    unfolding getDelimitedInput_def getInput_def g
    by (simp add: trim_eq_Nil trim_idem truthy_keep_cb)
  have e: "raw = [CHR ''a'', CHR 0x0A, CHR ''b'', CHR 0x0A, CHR 0x0A, CHR ''c''] \<Longrightarrow>
             fst (getListInput toUpperCase input required w) = Inr [''a'', ''b'', ''c'']"
  proof -
    assume r: "raw = [CHR ''a'', CHR 0x0A, CHR ''b'', CHR 0x0A, CHR 0x0A, CHR ''c'']"
    have nb: "\<not> blank raw" by (simp add: r blank_def is_ws_def)
    show ?thesis
      unfolding getListInput_def d [of "[CHR 0x0A]", simplified nb, simplified]
      by (simp add: r eval_string)
  qed
  show ?thesis using d e by (simp add: getListInput_def)
qed

theorem getListInput_lines_witness:
  "or_empty (env_get example_world (''INPUT_'' @ inputProp toUpperCase_ascii ''lines''))
     = [CHR ''a'', CHR 0x0A, CHR ''b'', CHR 0x0A, CHR 0x0A, CHR ''c'']
   \<and> \<not> (True \<and> blank (or_empty (env_get example_world
                                      (''INPUT_'' @ inputProp toUpperCase_ascii ''lines''))))
   \<and> fst (getListInput toUpperCase_ascii ''lines'' True example_world)
       = Inr [''a'', ''b'', ''c'']
   \<and> fst (getDelimitedInput toUpperCase_ascii ''my key'' '' '' False example_world)
       = Inr [''some'', ''value'']"
  using getListInput_lines
          [OF refl, where w = example_world and toUpperCase = toUpperCase_ascii
             and input = "''lines''" and required = True and delimiter = "[CHR 0x0A]"]
        getListInput_lines
          [OF refl, where w = example_world and toUpperCase = toUpperCase_ascii
             and input = "''my key''" and required = False and delimiter = "'' ''"]
  by (simp add: eval_string eval_env inputProp_def)

subsection \<open>Variable references\<close>

lemma name_char_simps:
  "\<not> is_name_start (CHR ''{'')" "\<not> is_name_char (CHR ''}'')" "\<not> is_name_start (CHR ''}'')"
  by (simp_all add: is_name_start_def is_name_char_def)

lemma takeWhile_name:
  assumes "list_all is_name_char n" "rest = [] \<or> \<not> is_name_char (hd rest)"
  shows "takeWhile is_name_char (n @ rest) = n" "dropWhile is_name_char (n @ rest) = rest"
proof -
  have a: "\<forall>x\<in>set n. is_name_char x" using assms(1) by (simp add: list_all_iff)
  have t: "takeWhile is_name_char rest = []" using assms(2) by (cases rest) auto
  have d: "dropWhile is_name_char rest = rest" using assms(2) by (cases rest) auto
  show "takeWhile is_name_char (n @ rest) = n" using a t by (simp add: takeWhile_append2)
  show "dropWhile is_name_char (n @ rest) = rest" using a d by (simp add: dropWhile_append2)
qed

lemma match_ref_plain:
  assumes "is_name n" "rest = [] \<or> \<not> is_name_char (hd rest)"
  shows "match_ref (n @ rest) = Some (n, length n)"
proof -
  obtain c cs where n: "n = c # cs" using assms(1) by (cases n) (auto simp: is_name_def)
  have s: "is_name_start c" using assms(1) n by (simp add: is_name_def)
  have a: "list_all is_name_char n" using assms(1) by (simp add: is_name_def)
  have "match_ref ((c # cs) @ rest) = Some (takeWhile is_name_char ((c # cs) @ rest),
          length (takeWhile is_name_char ((c # cs) @ rest)))"
    using s by (simp add: match_ref_def Let_def)
  then show ?thesis
    using takeWhile_name(1) [OF a assms(2)] by (simp add: n)
qed

lemma match_ref_braced:
  assumes "is_name n"
  shows "match_ref (CHR ''{'' # n @ CHR ''}'' # rest) = Some (n, length n + 2)"
proof -
  obtain c cs where n: "n = c # cs" using assms by (cases n) (auto simp: is_name_def)
  have s: "is_name_start c" using assms n by (simp add: is_name_def)
  have a: "list_all is_name_char n" using assms by (simp add: is_name_def)
  have h: "CHR ''}'' # rest = [] \<or> \<not> is_name_char (hd (CHR ''}'' # rest))"
    by (simp add: name_char_simps)
  note tw = takeWhile_name [OF a h]
  have "match_ref (CHR ''{'' # (c # cs) @ CHR ''}'' # rest)
          = (let braced = takeWhile is_name_char ((c # cs) @ CHR ''}'' # rest)
             in case dropWhile is_name_char ((c # cs) @ CHR ''}'' # rest) of
                  [] \<Rightarrow> None
                | d # _ \<Rightarrow> if d = CHR ''}'' then Some (braced, length braced + 2) else None)"
    using s by (simp add: match_ref_def name_char_simps Let_def del: takeWhile.simps dropWhile.simps)
  then show ?thesis
    using tw by (simp add: n Let_def del: takeWhile.simps dropWhile.simps)
qed

lemmas eval_expand = getExpandedString_def match_ref_def is_name_start_def is_name_char_def
  ref_value_def is_name_def Let_def

lemma name_start_is_name_char: "is_name_start c \<Longrightarrow> is_name_char c"
  by (simp add: is_name_char_def)

lemma match_ref_none:
  assumes "rest = [] \<or> \<not> is_name_start (hd rest)"
    and "\<And>n r. is_name n \<Longrightarrow> rest \<noteq> ''{'' @ n @ ''}'' @ r"
  shows "match_ref rest = None"
proof (cases rest)
  case Nil
  then show ?thesis by (simp add: match_ref_def)
next
  case (Cons c cs)
  then have nc: "\<not> is_name_start c" using assms(1) by simp
  show ?thesis
  proof (cases "c = CHR ''{''")
    case False
    then show ?thesis using nc by (simp add: match_ref_def Cons)
  next
    case brace: True
    show ?thesis
    proof (cases cs)
      case Nil
      then show ?thesis using nc brace by (simp add: match_ref_def Cons)
    next
      case (Cons b bs)
      show ?thesis
      proof (cases "is_name_start b")
        case False
        then show ?thesis using nc brace by (simp add: match_ref_def \<open>rest = c # cs\<close> Cons)
      next
        case True
        define braced where "braced = takeWhile is_name_char cs"
        define after where "after = dropWhile is_name_char cs"
        have cs: "cs = braced @ after" by (simp add: braced_def after_def)
        have "braced = b # takeWhile is_name_char bs"
          using True by (simp add: braced_def Cons name_start_is_name_char)
        moreover have "list_all is_name_char braced"
          by (auto simp: braced_def list_all_iff dest: set_takeWhileD)
        ultimately have nm: "is_name braced" using True by (simp add: is_name_def)
        have m: "match_ref rest
                   = (case after of
                        [] \<Rightarrow> None
                      | d # _ \<Rightarrow> if d = CHR ''}'' then Some (braced, length braced + 2)
                                else None)"
          unfolding braced_def after_def \<open>rest = c # cs\<close> Cons using nc brace True
          by (simp add: match_ref_def Let_def del: takeWhile.simps dropWhile.simps)
        show ?thesis
        proof (cases after)
          case Nil
          then show ?thesis by (simp add: m)
        next
          case (Cons d ds)
          have "d \<noteq> CHR ''}''"
          proof
            assume "d = CHR ''}''"
            then have "rest = ''{'' @ braced @ ''}'' @ ds"
              using brace cs Cons by (simp add: \<open>rest = c # cs\<close>)
            then show False using assms(2) [OF nm] by blast
          qed
          then show ?thesis by (simp add: m Cons)
        qed
      qed
    qed
  qed
qed

lemma expand_plain:
  assumes "is_name n" "rest = [] \<or> \<not> is_name_char (hd rest)"
  shows "expand w (''$'' @ n @ rest)
           = (case env_get w (toUpperCase_ascii n) of Some v \<Rightarrow> v | None \<Rightarrow> [])
             @ expand w rest"
  using match_ref_plain [OF assms] by (simp add: ref_value_def)

lemma expand_braced:
  assumes "is_name n"
  shows "expand w (''${'' @ n @ ''}'' @ rest)
           = (case env_get w (toUpperCase_ascii n) of Some v \<Rightarrow> v | None \<Rightarrow> [])
             @ expand w rest"
  using match_ref_braced [OF assms, of rest] by (simp add: ref_value_def)

lemma expand_other:
  assumes "rest = [] \<or> \<not> is_name_start (hd rest)"
    and "\<forall>n r. is_name n \<longrightarrow> rest \<noteq> ''{'' @ n @ ''}'' @ r"
  shows "expand w (CHR ''$'' # rest) = CHR ''$'' # expand w rest"
proof -
  have "match_ref rest = None" using assms by (intro match_ref_none) blast+
  then show ?thesis by simp
qed

text \<open>
  The equations of the three lemmas above, with those for the empty pattern and for a
  character other than the dollar sign, leave no choice: a function that satisfies
  them is the expansion.
\<close>

lemma expand_determined:
  assumes e0: "f [] = []"
    and e1: "\<And>c rest. c \<noteq> CHR ''$'' \<Longrightarrow> f (c # rest) = c # f rest"
    and e2: "\<And>n rest. is_name n \<Longrightarrow> rest = [] \<or> \<not> is_name_char (hd rest) \<Longrightarrow>
               f (''$'' @ n @ rest)
                 = (case env_get w (toUpperCase_ascii n) of Some v \<Rightarrow> v | None \<Rightarrow> [])
                   @ f rest"
    and e3: "\<And>n rest. is_name n \<Longrightarrow>
               f (''${'' @ n @ ''}'' @ rest)
                 = (case env_get w (toUpperCase_ascii n) of Some v \<Rightarrow> v | None \<Rightarrow> [])
                   @ f rest"
    and e4: "\<And>rest. rest = [] \<or> \<not> is_name_start (hd rest) \<Longrightarrow>
               \<forall>n r. is_name n \<longrightarrow> rest \<noteq> ''{'' @ n @ ''}'' @ r \<Longrightarrow>
               f (CHR ''$'' # rest) = CHR ''$'' # f rest"
  shows "f pattern = expand w pattern"
proof (induction pattern rule: length_induct)
  case (1 xs)
  show ?case
  proof (cases xs)
    case Nil
    then show ?thesis by (simp add: e0)
  next
    case (Cons c cs)
    have shorter: "f ys = expand w ys" if "length ys \<le> length cs" for ys
      using 1 that by (simp add: Cons)
    show ?thesis
    proof (cases "c = CHR ''$''")
      case False
      then show ?thesis using e1 [of c cs] shorter [of cs] by (simp add: Cons)
    next
      case dollar: True
      show ?thesis
      proof (cases "cs \<noteq> [] \<and> is_name_start (hd cs)")
        case True
        define n where "n = takeWhile is_name_char cs"
        define r where "r = dropWhile is_name_char cs"
        have cs: "cs = n @ r" by (simp add: n_def r_def)
        obtain b bs where b: "cs = b # bs" using True by (cases cs) auto
        have "n = b # takeWhile is_name_char bs"
          using True b by (simp add: n_def name_start_is_name_char)
        moreover have "list_all is_name_char n"
          by (auto simp: n_def list_all_iff dest: set_takeWhileD)
        ultimately have nm: "is_name n" using True b by (simp add: is_name_def)
        have rr: "r = [] \<or> \<not> is_name_char (hd r)"
          unfolding r_def using hd_dropWhile [of is_name_char cs] by blast
        have "length r \<le> length cs" by (simp add: cs)
        then have "f r = expand w r" by (rule shorter)
        then show ?thesis
          using e2 [OF nm rr] expand_plain [OF nm rr, of w] by (simp add: Cons dollar cs)
      next
        case notname: False
        show ?thesis
        proof (cases "\<exists>n r. is_name n \<and> cs = ''{'' @ n @ ''}'' @ r")
          case True
          then obtain n r where nm: "is_name n" and cs: "cs = ''{'' @ n @ ''}'' @ r" by blast
          have "length r \<le> length cs" by (simp add: cs)
          then have "f r = expand w r" by (rule shorter)
          then show ?thesis
            using e3 [OF nm, of r] expand_braced [OF nm, of w r] by (simp add: Cons dollar cs)
        next
          case False
          then have h: "\<forall>n r. is_name n \<longrightarrow> cs \<noteq> ''{'' @ n @ ''}'' @ r" by blast
          have g: "cs = [] \<or> \<not> is_name_start (hd cs)" using notname by blast
          show ?thesis
            using e4 [OF g h] expand_other [OF g h, of w] shorter [of cs]
            by (simp add: Cons dollar)
        qed
      qed
    qed
  qed
qed

text \<open>
  Claim C2, as amended. \<open>getExpandedString\<close> returns the expansion of its pattern, and
  the expansion is this. The empty pattern stays empty. A character other than the
  dollar sign stays, and the rest is expanded. A dollar sign followed by a name (of the
  letters \<^verbatim>\<open>a\<close> to \<^verbatim>\<open>z\<close> and \<^verbatim>\<open>A\<close> to \<^verbatim>\<open>Z\<close>, digits and underscores, not starting with
  a digit), the name ending where the pattern ends or a character that cannot be part
  of a name comes, is replaced by the value of the environment variable with the
  upper-cased name, and by nothing when that variable is unset; so is a dollar sign
  followed by a name in braces; in both cases the expansion of what follows the
  reference comes next, and the value written is not read again. Every other dollar
  sign, that is, one followed neither by the first character of a name nor by a name
  in braces, as in \<^verbatim>\<open>${}\<close>, stays, and what follows it is expanded.
\<close>

theorem getExpandedString_references:
  "fst (getExpandedString pattern w) = expand w pattern
   \<and> expand w [] = []
   \<and> (c \<noteq> CHR ''$'' \<longrightarrow> expand w (c # rest) = c # expand w rest)
   \<and> (is_name n \<and> (rest = [] \<or> \<not> is_name_char (hd rest)) \<longrightarrow>
        expand w (''$'' @ n @ rest)
          = (case env_get w (toUpperCase_ascii n) of Some v \<Rightarrow> v | None \<Rightarrow> [])
            @ expand w rest)
   \<and> (is_name n \<longrightarrow>
        expand w (''${'' @ n @ ''}'' @ rest)
          = (case env_get w (toUpperCase_ascii n) of Some v \<Rightarrow> v | None \<Rightarrow> [])
            @ expand w rest)
   \<and> ((rest = [] \<or> \<not> is_name_start (hd rest))
        \<and> (\<forall>n r. is_name n \<longrightarrow> rest \<noteq> ''{'' @ n @ ''}'' @ r) \<longrightarrow>
        expand w (CHR ''$'' # rest) = CHR ''$'' # expand w rest)"
proof -
  have p1: "fst (getExpandedString pattern w) = expand w pattern"
    by (simp add: getExpandedString_def Let_def)
  have p5: "expand w (c # rest) = c # expand w rest" if "c \<noteq> CHR ''$''"
    using that by simp
  show ?thesis
    using p1 p5 expand_plain [of n rest w] expand_braced [of n w rest] expand_other [of rest w]
    by simp
qed

lemma braced_form_matches:
  assumes "is_name n" "rest = ''{'' @ n @ ''}'' @ r"
  shows "match_ref rest \<noteq> None"
  using match_ref_braced [OF assms(1), of r] assms(2) by simp

theorem getExpandedString_references_witness:
  "is_name ''HOME'' \<and> is_name ''outer'' \<and> is_name ''none''
   \<and> env_get example_world (toUpperCase_ascii ''HOME'') = Some ''/h''
   \<and> env_get example_world (toUpperCase_ascii ''outer'') = Some ''$USER''
   \<and> env_get example_world (toUpperCase_ascii ''none'') = None
   \<and> expand example_world (''$'' @ ''HOME'' @ ''/${user}/x'') = ''/h/u/x''
   \<and> expand example_world (''${'' @ ''outer'' @ ''}'' @ ''$none.'') = ''$USER.''
   \<and> expand example_world (''$'' @ ''none'' @ ''.'') = ''.''
   \<and> expand example_world (CHR ''$'' # ''{}'') = ''${}''
   \<and> expand example_world (CHR ''$'' # ''5 ${a-b}'') = ''$5 ${a-b}''
   \<and> expand example_world (CHR ''x'' # ''$'') = ''x$''
   \<and> fst (getExpandedString ''${}'' example_world) = ''${}''"
proof -
  have n: "is_name ''HOME''" "is_name ''outer''" "is_name ''none''"
    "''/${user}/x'' = [] \<or> \<not> is_name_char (hd ''/${user}/x'')"
    "''.'' = [] \<or> \<not> is_name_char (hd ''.'')"
    "''{}'' = [] \<or> \<not> is_name_start (hd ''{}'')"
    "''5 ${a-b}'' = [] \<or> \<not> is_name_start (hd ''5 ${a-b}'')"
    "CHR ''x'' \<noteq> CHR ''$''"
    by (simp_all add: is_name_def is_name_start_def is_name_char_def)
  have u: "env_get example_world (toUpperCase_ascii ''HOME'') = Some ''/h''"
    "env_get example_world (toUpperCase_ascii ''outer'') = Some ''$USER''"
    "env_get example_world (toUpperCase_ascii ''none'') = None"
    by (simp_all add: eval_env eval_string)
  have m: "match_ref ''{}'' = None" "match_ref ''5 ${a-b}'' = None"
    by (simp_all add: match_ref_def is_name_start_def is_name_char_def)
  have o: "\<forall>n r. is_name n \<longrightarrow> ''{}'' \<noteq> ''{'' @ n @ ''}'' @ r"
    "\<forall>n r. is_name n \<longrightarrow> ''5 ${a-b}'' \<noteq> ''{'' @ n @ ''}'' @ r"
    using m braced_form_matches by blast+
  have v: "''/h'' @ expand example_world ''/${user}/x'' = ''/h/u/x''"
    "''$USER'' @ expand example_world ''$none.'' = ''$USER.''"
    "[] @ expand example_world ''.'' = ''.''"
    "CHR ''$'' # expand example_world ''{}'' = ''${}''"
    "CHR ''$'' # expand example_world ''5 ${a-b}'' = ''$5 ${a-b}''"
    "CHR ''x'' # expand example_world ''$'' = ''x$''"
    by (simp_all add: eval_expand eval_env eval_string)
  have a: "expand example_world (''$'' @ ''HOME'' @ ''/${user}/x'') = ''/h/u/x''"
    using getExpandedString_references
            [of "''${}''" example_world "CHR ''x''" "''/${user}/x''" "''HOME''"]
      n u(1) v(1) by (simp only: option.case)
  have b: "expand example_world (''${'' @ ''outer'' @ ''}'' @ ''$none.'') = ''$USER.''"
    using getExpandedString_references
            [of "''${}''" example_world "CHR ''x''" "''$none.''" "''outer''"]
      n u(2) v(2) by (simp only: option.case)
  have c: "expand example_world (''$'' @ ''none'' @ ''.'') = ''.''"
    using getExpandedString_references
            [of "''${}''" example_world "CHR ''x''" "''.''" "''none''"]
      n u(3) v(3) by (simp only: option.case)
  have d: "expand example_world (CHR ''$'' # ''{}'') = ''${}''"
    "fst (getExpandedString ''${}'' example_world) = ''${}''"
    using getExpandedString_references
            [of "''${}''" example_world "CHR ''x''" "''{}''" "''none''"]
      n o(1) v(4) by (simp_all only:)
  have e: "expand example_world (CHR ''$'' # ''5 ${a-b}'') = ''$5 ${a-b}''"
    using getExpandedString_references
            [of "''${}''" example_world "CHR ''x''" "''5 ${a-b}''" "''none''"]
      n o(2) v(5) by (simp only:)
  have f: "expand example_world (CHR ''x'' # ''$'') = ''x$''"
    using getExpandedString_references
            [of "''${}''" example_world "CHR ''x''" "''$''" "''none''"]
      n v(6) by (simp only: simp_thms)
  show ?thesis using n(1-3) u a b c d e f by (simp only: simp_thms)
qed

text \<open>
  Claim C2 as written has \<^verbatim>\<open>${}\<close> replaced by the empty string. The pattern
  matches no empty name, and the token stays as it is.
\<close>

theorem getExpandedString_malformed_counterexample:
  "fst (getExpandedString ''${}'' example_world) = ''${}''
   \<and> fst (getExpandedString ''${}'' example_world) \<noteq> []"
  by (simp add: eval_expand)

subsection \<open>Required parameters\<close>

text \<open>
  Claim C6. \<open>cacheToolDirectory\<close> with an empty \<open>tool\<close>, else an empty \<open>version\<close>, else
  an empty \<open>sourceDir\<close>, and \<open>findLocalTool\<close> with an empty \<open>toolName\<close>, else an empty
  \<open>versionSpec\<close>, throws the error that names that parameter, each with a message of
  its own. The process is returned as it was: no variable has been read, nothing has
  been logged and no file has been touched.
\<close>
theorem required_parameters_checked_first:
  "(tool = [] \<longrightarrow>
      cacheToolDirectory ag semver_clean sourceDir tool version w
        = (Inl (Error ''tool is a required parameter''), w))
   \<and> (tool \<noteq> [] \<and> version = [] \<longrightarrow>
      cacheToolDirectory ag semver_clean sourceDir tool version w
        = (Inl (Error ''version is a required parameter''), w))
   \<and> (tool \<noteq> [] \<and> version \<noteq> [] \<and> sourceDir = [] \<longrightarrow>
      cacheToolDirectory ag semver_clean sourceDir tool version w
        = (Inl (Error ''sourceDir is a required parameter''), w))
   \<and> (tool = [] \<longrightarrow>
      findLocalTool ag semver_clean tool version w
        = (Inl (Error ''toolName is a required parameter''), w))
   \<and> (tool \<noteq> [] \<and> version = [] \<longrightarrow>
      findLocalTool ag semver_clean tool version w
        = (Inl (Error ''versionSpec is a required parameter''), w))"
  by (simp add: cacheToolDirectory_def findLocalTool_def)

theorem required_parameters_checked_first_witness:
  "cacheToolDirectory example_agent example_clean ''/src'' [] ''1.2.3'' example_world
     = (Inl (Error ''tool is a required parameter''), example_world)
   \<and> cacheToolDirectory example_agent example_clean ''/src'' ''tool'' [] example_world
     = (Inl (Error ''version is a required parameter''), example_world)
   \<and> cacheToolDirectory example_agent example_clean [] ''tool'' ''1.2.3'' example_world
     = (Inl (Error ''sourceDir is a required parameter''), example_world)
   \<and> findLocalTool example_agent example_clean [] ''1.2.3'' example_world
     = (Inl (Error ''toolName is a required parameter''), example_world)
   \<and> findLocalTool example_agent example_clean ''tool'' [] example_world
     = (Inl (Error ''versionSpec is a required parameter''), example_world)"
  using required_parameters_checked_first
          [of "[]" example_agent example_clean "''/src''" "''1.2.3''" example_world]
        required_parameters_checked_first
          [of "''tool''" example_agent example_clean "''/src''" "[]" example_world]
        required_parameters_checked_first
          [of "''tool''" example_agent example_clean "[]" "''1.2.3''" example_world]
  by simp

subsection \<open>Running a process\<close>

text \<open>
  Claim C5. \<open>exec\<close> always returns a result and never an error of its own, whatever
  the child process does. When the child succeeds the result has code 0, no error and
  the two captured streams. When the awaited call is rejected, for an exit code other
  than 0, a child that could not be started, or a signal, the result has the code of
  the rejection (none for a signal), the rejection as its error, and the streams the
  rejection carries.
\<close>
theorem exec_returns_result:
  "(\<exists>r. exec child_exec cmd args = Inr r)
   \<and> (\<forall>out err. child_exec (cmd @ '' '' @ join_js '' '' args) = Inr (out, err) \<longrightarrow>
         exec child_exec cmd args
           = Inr \<lparr>code = ExitCode 0, error = None, stderr = err, stdout = out\<rparr>)
   \<and> (\<forall>e. child_exec (cmd @ '' '' @ join_js '' '' args) = Inl e \<longrightarrow>
         exec child_exec cmd args
           = Inr \<lparr>code = err_code e, error = Some e, stderr = err_stderr e,
                  stdout = err_stdout e\<rparr>)"
  by (cases "child_exec (cmd @ '' '' @ join_js '' '' args)")
     (auto simp: exec_def try_catch_def)

theorem exec_returns_result_witness:
  "exec example_child_exec ''true'' [] 
     = Inr \<lparr>code = ExitCode 0, error = None, stderr = [], stdout = ''out''\<rparr>
   \<and> (\<exists>e. example_child_exec (''false'' @ '' '' @ join_js '' '' []) = Inl e
          \<and> err_code e = ExitCode 1
          \<and> exec example_child_exec ''false'' []
               = Inr \<lparr>code = ExitCode 1, error = Some e, stderr = ''failed'', stdout = []\<rparr>)
   \<and> (\<exists>e. example_child_exec (''sleep'' @ '' '' @ join_js '' '' [''100'']) = Inl e
          \<and> exec example_child_exec ''sleep'' [''100'']
               = Inr \<lparr>code = NullCode, error = Some e, stderr = [], stdout = []\<rparr>)"
  using exec_returns_result [of example_child_exec "''true''" "[]"]
        exec_returns_result [of example_child_exec "''false''" "[]"]
        exec_returns_result [of example_child_exec "''sleep''" "[''100'']"]
  by (simp add: example_child_exec_def)

subsection \<open>Existence checks\<close>

text \<open>
  Claim C10. Whatever the two file-system calls do with a path, and for whatever reason
  they fail, \<open>directoryExists\<close> and \<open>fileExists\<close> answer with a truth value: true
  exactly when \<^verbatim>\<open>access\<close> succeeds and \<^verbatim>\<open>stat\<close> succeeds with an entry that is a
  directory, respectively a regular file, and false whenever one of the two calls
  fails.
\<close>

theorem exists_checks_absorb_failures:
  "(directoryExists_with access stat p
      \<longleftrightarrow> (\<exists>u. access p = Inr u) \<and> (\<exists>e. stat p = Inr e \<and> isDirectory e))
   \<and> (fileExists_with access stat p
      \<longleftrightarrow> (\<exists>u. access p = Inr u) \<and> (\<exists>e. stat p = Inr e \<and> isFile e))
   \<and> ((\<exists>err. access p = Inl err \<or> stat p = Inl err) \<longrightarrow>
         \<not> directoryExists_with access stat p \<and> \<not> fileExists_with access stat p)"
  by (auto simp: directoryExists_with_def fileExists_with_def split: sum.splits)

theorem exists_checks_absorb_failures_witness:
  "example_access ''/nowhere'' = Inl (SystemError ENOENT ''/nowhere'')
   \<and> \<not> directoryExists_with example_access example_stat ''/nowhere''
   \<and> \<not> fileExists_with example_access example_stat ''/nowhere''
   \<and> example_stat ''/locked'' = Inl (SystemError EACCES ''/locked'')
   \<and> \<not> directoryExists_with example_access example_stat ''/locked''
   \<and> \<not> fileExists_with example_access example_stat ''/locked''
   \<and> directoryExists_with example_access example_stat ''/src/bin''
   \<and> \<not> fileExists_with example_access example_stat ''/src/bin''
   \<and> fileExists_with example_access example_stat ''/src/readme''
   \<and> \<not> directoryExists_with example_access example_stat ''/src/readme''"
  using exists_checks_absorb_failures [of example_access example_stat "''/nowhere''"]
    exists_checks_absorb_failures [of example_access example_stat "''/locked''"]
    exists_checks_absorb_failures [of example_access example_stat "''/src/bin''"]
    exists_checks_absorb_failures [of example_access example_stat "''/src/readme''"]
  by (simp add: example_access_def example_stat_def isDirectory_def isFile_def)

subsection \<open>The search path\<close>

lemma env_get_logged [simp]:
  "env_get (debug m w) k = env_get w k" "env_get (info m w) k = env_get w k"
  by (simp_all add: env_get_def env_key_def debug_def info_def)

lemma env_get_env_set:
  "env_get (env_set k v w) k' = (if env_key w k' = env_key w k then Some v else env_get w k')"
  by (simp add: env_get_def env_set_def env_key_def)

lemma env_key_env_set [simp]: "env_key (env_set k v w) k' = env_key w k'"
  "env_key (debug m w) k' = env_key w k'"
  by (simp_all add: env_set_def env_key_def debug_def)

lemma platform_kept [simp]:
  "platform (debug m w) = platform w" "platform (info m w) = platform w"
  "platform (env_set k v w) = platform w"
  by (simp_all add: debug_def info_def env_set_def)

lemma upper_Path: "fold_case ''Path'' = ''PATH''" "fold_case ''PATH'' = ''PATH''"
  by (simp_all add: fold_case_def lower_letters_def capital_letters_def)

text \<open>
  Claim C8. \<open>addPath\<close> sets the variable \<^verbatim>\<open>Path\<close> on Windows, \<^verbatim>\<open>PATH\<close> elsewhere, to
  the given path, the platform's delimiter and the value the variable had, and sets the
  variable \<^verbatim>\<open>Path\<close> to the same new value. A variable that was not set is written as
  the text \<^verbatim>\<open>undefined\<close>. The directories the locator searches afterwards are those of
  the new value, which starts with the given path.
\<close>

theorem addPath_prepends:
  assumes "envName = (if platform w = ''win32'' then ''Path'' else ''PATH'')"
    and "newPath = inputPath @ path_delimiter w @ js_text (env_get w envName)"
  shows "env_get (addPath inputPath w) envName = Some newPath
       \<and> env_get (addPath inputPath w) ''Path'' = Some newPath
       \<and> (\<forall>old. env_get w envName = Some old \<longrightarrow> newPath = inputPath @ path_delimiter w @ old)
       \<and> (env_get w envName = None \<longrightarrow> newPath = inputPath @ path_delimiter w @ ''undefined'')
       \<and> search_dirs (addPath inputPath w) = Some (split_js newPath (path_delimiter w))
       \<and> prefix inputPath newPath"
proof -
  have a: "addPath inputPath w
             = info (''Updated PATH: '' @ js_text (env_get (env_set ''Path'' newPath
                        (env_set envName newPath (debug (''new Path: '' @ newPath) w))) envName))
                 (env_set ''Path'' newPath
                    (env_set envName newPath (debug (''new Path: '' @ newPath) w)))"
    unfolding addPath_def Let_def assms by (rule refl)
  have e1: "env_get (addPath inputPath w) envName = Some newPath"
    unfolding a by (simp add: env_get_env_set)
  have e2: "env_get (addPath inputPath w) ''Path'' = Some newPath"
    unfolding a by (simp add: env_get_env_set)
  have pn: "path_env_name (addPath inputPath w) = envName"
    unfolding a by (simp add: path_env_name_def assms(1))
  have pd: "path_delimiter (addPath inputPath w) = path_delimiter w"
    unfolding a by (simp add: path_delimiter_def)
  have s: "search_dirs (addPath inputPath w) = Some (split_js newPath (path_delimiter w))"
    unfolding search_dirs_def pn pd e1 by simp
  show ?thesis
    using e1 e2 s by (auto simp: assms(2) js_text_def)
qed

subsection \<open>Canonical paths\<close>











lemma path_resolve_nonempty: "path_resolve w p \<noteq> []"
  by (simp add: path_resolve_def Let_def)

lemma logged_fields [simp]:
  "cwd (debug m w) = cwd w" "files (debug m w) = files w" "env (debug m w) = env w"
  "cwd (info m w) = cwd w" "files (info m w) = files w" "env (info m w) = env w"
  by (simp_all add: debug_def info_def)

lemma path_resolve_logged [simp]:
  "path_resolve (debug m w) p = path_resolve w p" "path_resolve (info m w) p = path_resolve w p"
  unfolding path_resolve_def logged_fields by (rule refl)+

lemma fs_loc_logged [simp]: "fs_loc (debug m w) p = fs_loc w p" "fs_loc (info m w) p = fs_loc w p"
  by (simp_all add: fs_loc_def)

lemma lookup_fs_logged [simp]:
  "lookup_fs (debug m w) q = lookup_fs w q" "lookup_fs (info m w) q = lookup_fs w q"
  by (simp_all add: lookup_fs_def)

lemma fs_access_logged [simp]:
  "fs_access p (debug m w) = fs_access p w" "fs_access p (info m w) = fs_access p w"
  by (simp_all add: fs_access_def)

lemma fs_stat_logged [simp]:
  "fs_stat p (debug m w) = fs_stat p w" "fs_stat p (info m w) = fs_stat p w"
  by (simp_all add: fs_stat_def)

lemma directoryExists_logged [simp]:
  "directoryExists p (debug m w) = directoryExists p w"
  "directoryExists p (info m w) = directoryExists p w"
  by (simp_all add: directoryExists_def)

lemma path_normalize_absolute: "isAbsolute p \<Longrightarrow> isAbsolute (path_normalize p)"
  by (simp add: path_normalize_def isAbsolute_def Let_def)

lemma join_js_absolute: "isAbsolute a \<Longrightarrow> isAbsolute (join_js sep (a # xs))"
  by (cases xs) (auto simp: isAbsolute_def)

lemma path_join_absolute:
  assumes "isAbsolute a"
  shows "isAbsolute (path_join (a # rest))"
proof -
  have "a \<noteq> []" using assms by (auto simp: isAbsolute_def)
  then have "path_join (a # rest)
               = path_normalize (join_js ''/'' (a # filter (\<lambda>a. a \<noteq> []) rest))"
    by (simp add: path_join_def)
  then show ?thesis
    using assms by (simp add: path_normalize_absolute join_js_absolute)
qed

subsection \<open>Locating an executable\<close>

lemma search_logged [simp]:
  "path_delimiter (debug m w) = path_delimiter w"
  "path_env_name (debug m w) = path_env_name w"
  "executable_extensions (debug m w) configured = executable_extensions w configured"
  by (simp_all add: path_delimiter_def path_env_name_def executable_extensions_def)

lemma search_dirs_logged [simp]: "search_dirs (debug m w) = search_dirs w"
  unfolding search_dirs_def search_logged env_get_logged by (rule refl)

lemma candidates_logged [simp]:
  "candidates (debug m w) configured tool dirs = candidates w configured tool dirs"
  by (simp add: candidates_def)

lemma lookPath_logged [simp]:
  "lookPath probe configured tool (debug m w) = lookPath probe configured tool w"
  unfolding lookPath_def search_dirs_logged candidates_logged by (rule refl)









subsection \<open>The search path, on the examples\<close>

theorem addPath_prepends_witness:
  "env_get (addPath ''/new/bin'' example_world) ''PATH'' = Some ''/new/bin:/usr/bin:/bin''
   \<and> env_get (addPath ''/new/bin'' example_world) ''Path'' = Some ''/new/bin:/usr/bin:/bin''
   \<and> search_dirs (addPath ''/new/bin'' example_world) = Some [''/new/bin'', ''/usr/bin'', ''/bin'']
   \<and> env_get (addPath ''D:/tools'' windows_world) ''Path'' = Some ''D:/tools;C:/bin''
   \<and> env_get (addPath ''D:/tools'' windows_world) ''PATH'' = Some ''D:/tools;C:/bin''
   \<and> env_get (addPath ''/new/bin'' (example_world\<lparr>env := Map.empty\<rparr>)) ''PATH''
        = Some ''/new/bin:undefined''
   \<and> fst (which example_probe ''grm'' example_world)
        = Inl (Error ''Unable to locate executable file: grm'')
   \<and> fst (which example_probe ''grm'' (addPath ''/new/bin'' example_world))
        = Inr ''/new/bin/grm''"
proof -
  have w0: "fst (which example_probe ''grm'' example_world)
              = Inl (Error ''Unable to locate executable file: grm'')"
    by code_simp
  have w1: "fst (which example_probe ''grm'' (addPath ''/new/bin'' example_world))
              = Inr ''/new/bin/grm''"
    by code_simp
  have p: "platform example_world \<noteq> ''win32''" "platform windows_world = ''win32''"
    "platform (example_world\<lparr>env := Map.empty\<rparr>) \<noteq> ''win32''"
    by (simp_all add: example_world_def windows_world_def)
  have o: "env_get example_world ''PATH'' = Some ''/usr/bin:/bin''"
    "env_get windows_world ''Path'' = Some ''C:/bin''"
    "env_get (example_world\<lparr>env := Map.empty\<rparr>) ''PATH'' = None"
    by (simp_all add: example_world_def windows_world_def env_get_def env_key_def upper_Path)
  have d: "path_delimiter example_world = '':''" "path_delimiter windows_world = '';''"
    "path_delimiter (example_world\<lparr>env := Map.empty\<rparr>) = '':''"
    by (simp_all add: path_delimiter_def example_world_def windows_world_def)
  have s: "split_js ''/new/bin:/usr/bin:/bin'' '':'' = [''/new/bin'', ''/usr/bin'', ''/bin'']"
    by (simp add: split_js_def)
  have k: "env_get (addPath ''D:/tools'' windows_world) ''PATH''
             = env_get (addPath ''D:/tools'' windows_world) ''Path''"
    by (simp add: env_get_def env_key_def upper_Path addPath_def Let_def windows_world_def
          env_set_def info_def debug_def)
  show ?thesis
    using addPath_prepends [of "''PATH''" example_world "''/new/bin:/usr/bin:/bin''" "''/new/bin''"]
      addPath_prepends [of "''Path''" windows_world "''D:/tools;C:/bin''" "''D:/tools''"]
      addPath_prepends [of "''PATH''" "example_world\<lparr>env := Map.empty\<rparr>"
         "''/new/bin:undefined''" "''/new/bin''"]
      p o d s k w0 w1
    by (simp add: js_text_def)
qed

subsection \<open>The file system\<close>

lemma map_of_rm:
  "map_of (filter (\<lambda>(q, e). \<not> prefix d q) fs) k = (if prefix d k then None else map_of fs k)"
  by (induction fs) auto

lemma prefixes_split: "prefixes d = strict_prefixes d @ [d]"
  unfolding strict_prefixes_def
  by (metis append_butlast_last_id last_prefixes prefixes_not_Nil)

lemma in_strict_prefixes: "r \<in> set (strict_prefixes q) \<longleftrightarrow> strict_prefix r q"
proof -
  have "distinct (prefixes q)" by (rule distinct_prefixes)
  then have "q \<notin> set (strict_prefixes q)"
    unfolding prefixes_split [of q] by simp
  moreover have "set (prefixes q) = insert q (set (strict_prefixes q))"
    unfolding prefixes_split [of q] by simp
  ultimately show ?thesis
    by (metis in_set_prefixes insertE insertI2 strict_prefix_def)
qed

lemma map_of_new_dirs:
  "map_of (map (\<lambda>r. (r, DirE)) (filter P rs)) k = (if k \<in> set rs \<and> P k then Some DirE else None)"
  by (induction rs) auto

lemma mkdir_p_lookup:
  assumes "mkdir_p fs d = Inr fs'"
  shows "map_of fs' k = (if prefix k d \<and> map_of fs k = None then Some DirE else map_of fs k)"
proof -
  have "fs' = map (\<lambda>r. (r, DirE)) (filter (\<lambda>r. map_of fs r = None) (prefixes d)) @ fs"
    using assms by (auto simp: mkdir_p_def split: if_splits option.splits entry.splits)
  then show ?thesis
    by (simp add: map_add_def map_of_new_dirs in_set_prefixes split: option.splits)
qed

lemma mkdir_p_dirs:
  assumes "mkdir_p fs d = Inr fs'" "prefix k d"
  shows "map_of fs' k = Some DirE"
proof -
  have nf: "\<And>c. map_of fs k \<noteq> Some (FileE c)"
  proof (cases "k = d")
    case True
    then show "\<And>c. map_of fs k \<noteq> Some (FileE c)"
      using assms(1) by (auto simp: mkdir_p_def split: if_splits option.splits entry.splits)
  next
    case False
    then have "k \<in> set (strict_prefixes d)"
      using assms(2) by (simp add: in_strict_prefixes strict_prefix_def)
    then show "\<And>c. map_of fs k \<noteq> Some (FileE c)"
      using assms(1)
      by (auto simp: mkdir_p_def list_ex_iff split: if_splits option.splits entry.splits)
  qed
  show ?thesis
    using nf assms(2) unfolding mkdir_p_lookup [OF assms(1)]
    by (cases "map_of fs k") (auto intro: entry.exhaust)
qed

lemma mkdir_p_noop:
  assumes "\<And>k. prefix k d \<Longrightarrow> map_of fs k = Some DirE"
  shows "mkdir_p fs d = Inr fs"
proof -
  have a: "\<not> list_ex (\<lambda>r. case map_of fs r of Some (FileE _) \<Rightarrow> True | _ \<Rightarrow> False)
             (strict_prefixes d)"
    using assms by (auto simp: list_ex_iff in_strict_prefixes strict_prefix_def)
  have b: "filter (\<lambda>r. map_of fs r = None) (prefixes d) = []"
    using assms by (auto simp: filter_empty_conv in_set_prefixes)
  show ?thesis
    using a b assms [of d] by (simp add: mkdir_p_def)
qed

lemma map_of_copy_entries:
  "map_of (copy_entries fs s d xs) k
     = (if prefix d k \<and> (s @ drop (length d) k, the (map_of fs (s @ drop (length d) k))) \<in> set xs
           \<and> map_of fs (s @ drop (length d) k) \<noteq> None
        then map_of fs (s @ drop (length d) k) else None)"
proof (induction xs)
  case Nil
  then show ?case by (simp add: copy_entries_def)
next
  case (Cons x xs)
  obtain q e where x: "x = (q, e)" by (cases x)
  define q' where "q' = s @ drop (length d) k"
  have key: "d @ drop (length s) q = k \<longleftrightarrow> prefix d k \<and> q = q'" if "prefix s q"
    using that by (auto simp: prefix_def q'_def)
  have pq: "prefix s q'" by (simp add: q'_def)
  note IH = Cons.IH [folded q'_def]
  show ?case
  proof (cases "prefix s q \<and> map_of fs q = Some e")
    case True
    then have step: "copy_entries fs s d (x # xs)
                       = (d @ drop (length s) q, e) # copy_entries fs s d xs"
      by (simp add: copy_entries_def x)
    show ?thesis
    proof (cases "d @ drop (length s) q = k")
      case hit: True
      then have "prefix d k" "q = q'" using key True by auto
      then show ?thesis
        unfolding step q'_def [symmetric] using True hit by (simp add: x)
    next
      case miss: False
      then have "\<not> (prefix d k \<and> q = q')" using key True by auto
      then show ?thesis
        unfolding step q'_def [symmetric] using miss IH by (auto simp: x)
    qed
  next
    case False
    then have step: "copy_entries fs s d (x # xs) = copy_entries fs s d xs"
      by (auto simp: copy_entries_def x)
    have "\<not> (q = q' \<and> the (map_of fs q') = e \<and> map_of fs q' \<noteq> None)"
      using False pq by (cases "map_of fs q'") auto
    then show ?thesis
      unfolding step q'_def [symmetric] using IH by (auto simp: x)
  qed
qed

lemma map_of_copy_all:
  "map_of (copy_entries fs s d fs) k
     = (if prefix d k then map_of fs (s @ drop (length d) k) else None)"
proof (cases "map_of fs (s @ drop (length d) k)")
  case None
  then show ?thesis unfolding map_of_copy_entries by simp
next
  case (Some e)
  then have "(s @ drop (length d) k, e) \<in> set fs" by (rule map_of_SomeD)
  then show ?thesis unfolding map_of_copy_entries using Some by simp
qed

lemma wf_fs_ancestor:
  assumes "wf_fs fs" "map_of fs q = Some e" "strict_prefix r q"
  shows "map_of fs r = Some DirE"
proof -
  have "(q, e) \<in> set fs" using assms(2) by (rule map_of_SomeD)
  then have "list_all (\<lambda>r. map_of fs r = Some DirE) (strict_prefixes q)"
    using assms(1) by (auto simp: wf_fs_def list_all_iff)
  then show ?thesis
    using assms(3) by (simp add: list_all_iff in_strict_prefixes)
qed

lemma cp_r_success:
  assumes "cp_r fs s d = Inr fs'"
  obtains se fsp where "map_of fs s = Some se" "s \<noteq> d" "\<not> prefix s d"
    "\<not> (isFile se \<and> map_of fs d = Some DirE)"
    "mkdir_p fs (butlast d) = Inr fsp" "fs' = copy_entries fsp s d fsp @ fsp"
  using assms
  by (auto simp: cp_r_def Let_def split: option.splits if_splits sum.splits)

lemma not_file_is_dir: "\<not> isFile e \<Longrightarrow> e = DirE"
  by (cases e) (simp_all add: isFile_def)

lemma cache_copy_contents:
  assumes wf: "wf_fs fs0"
    and fs1: "fs1 = (if map_of fs0 d = Some DirE
                     then filter (\<lambda>(q, e). \<not> prefix d q) fs0 else fs0)"
    and mk: "mkdir_p fs1 d = Inr fs2"
    and cp: "cp_r fs2 s d = Inr fs3"
  shows "map_of fs3 (d @ rel) = map_of fs0 (s @ rel)" and "map_of fs3 d = Some DirE"
proof -
  obtain se fsp where src: "map_of fs2 s = Some se" and sd: "s \<noteq> d" and nsd: "\<not> prefix s d"
    and nf: "\<not> (isFile se \<and> map_of fs2 d = Some DirE)"
    and par: "mkdir_p fs2 (butlast d) = Inr fsp"
    and fs3: "fs3 = copy_entries fsp s d fsp @ fsp"
    using cp by (rule cp_r_success)
  have dirs: "map_of fs2 k = Some DirE" if "prefix k d" for k
    using mk that by (rule mkdir_p_dirs)
  have "mkdir_p fs2 (butlast d) = Inr fs2"
  proof (rule mkdir_p_noop)
    fix k assume "prefix k (butlast d)"
    then have "prefix k d" using prefixeq_butlast [of d] by (rule prefix_order.trans)
    then show "map_of fs2 k = Some DirE" by (rule dirs)
  qed
  then have fsp: "fsp = fs2" using par by simp
  have look3: "map_of fs3 (d @ r)
                = (case map_of fs2 (s @ r) of Some e \<Rightarrow> Some e | None \<Rightarrow> map_of fs2 (d @ r))" for r
    unfolding fs3 fsp by (simp add: map_add_def map_of_copy_all)
  have se: "se = DirE"
    using nf dirs [of d] by (auto intro: not_file_is_dir)
  have s21: "map_of fs2 (s @ r) = map_of fs1 (s @ r)" for r
  proof -
    have "\<not> prefix (s @ r) d" using nsd by (auto dest: append_prefixD)
    then show ?thesis unfolding mkdir_p_lookup [OF mk] by simp
  qed
  have nds: "\<not> prefix d s"
  proof
    assume p: "prefix d s"
    show False
    proof (cases "map_of fs0 d = Some DirE")
      case True
      then have "map_of fs1 s = None" using p by (simp add: fs1 map_of_rm)
      then show False using src s21 [of "[]"] by simp
    next
      case False
      then have "map_of fs0 s = Some se" using src s21 [of "[]"] by (simp add: fs1)
      moreover have "strict_prefix d s" using p sd by (auto simp: strict_prefix_def)
      ultimately have "map_of fs0 d = Some DirE" using wf by (blast intro: wf_fs_ancestor)
      then show False using False by simp
    qed
  qed
  have s10: "map_of fs1 (s @ r) = map_of fs0 (s @ r)" for r
  proof -
    have "\<not> prefix d (s @ r)"
      using nds nsd by (auto simp: prefix_append)
    then show ?thesis by (simp add: fs1 map_of_rm)
  qed
  have below: "map_of fs2 (d @ r) = None" if "r \<noteq> []" for r
  proof -
    have "\<not> prefix (d @ r) d" using that by (auto simp: prefix_def)
    then have a: "map_of fs2 (d @ r) = map_of fs1 (d @ r)"
      unfolding mkdir_p_lookup [OF mk] by simp
    show ?thesis
    proof (cases "map_of fs0 d = Some DirE")
      case True
      then show ?thesis by (simp add: a fs1 map_of_rm)
    next
      case False
      have "map_of fs0 (d @ r) = None"
      proof (rule ccontr)
        assume "map_of fs0 (d @ r) \<noteq> None"
        then obtain e where "map_of fs0 (d @ r) = Some e" by auto
        moreover have "strict_prefix d (d @ r)" using that by (simp add: strict_prefix_def)
        ultimately have "map_of fs0 d = Some DirE" using wf by (blast intro: wf_fs_ancestor)
        then show False using False by simp
      qed
      then show ?thesis using False by (simp add: a fs1)
    qed
  qed
  show "map_of fs3 (d @ rel) = map_of fs0 (s @ rel)"
  proof (cases "map_of fs2 (s @ rel)")
    case None
    then have "rel \<noteq> []" using src by auto
    then show ?thesis
      using None below [of rel] s21 [of rel] s10 [of rel] by (simp add: look3)
  next
    case (Some e)
    then show ?thesis
      using s21 [of rel] s10 [of rel] by (simp add: look3)
  qed
  show "map_of fs3 d = Some DirE"
    using look3 [of "[]"] src se by simp
qed

subsection \<open>The tool cache\<close>

lemma same_host_refl [simp]: "same_host w w"
  by (simp add: same_host_def)

lemma same_host_trans: "same_host a b \<Longrightarrow> same_host b c \<Longrightarrow> same_host a c"
  by (simp add: same_host_def)

lemma same_host_logged [simp]: "same_host w (debug m w)" "same_host w (info m w)"
  by (simp_all add: same_host_def debug_def info_def)

lemma same_host_files [simp]: "same_host w (w\<lparr>files := fs\<rparr>)"
  by (simp add: same_host_def)

lemma same_host_path_resolve:
  assumes "same_host w w'"
  shows "path_resolve w' p = path_resolve w p"
proof -
  have c: "cwd w' = cwd w" using assms by (simp add: same_host_def)
  show ?thesis unfolding path_resolve_def c by (rule refl)
qed

lemma same_host_fs_loc: "same_host w w' \<Longrightarrow> fs_loc w' p = fs_loc w p"
  unfolding fs_loc_def by (simp add: same_host_path_resolve)

lemma cacheDir_eq:
  "cacheDir ag w
     = (path_resolve w (path_normalize (trim (or_empty (env_get w (cacheDirVariable ag))))),
        debug (''getVariable - '' @ cacheDirVariable ag @ '': ''
                 @ trim (or_empty (env_get w (cacheDirVariable ag)))) w)"
  by (simp add: cacheDir_def getVariableAsPath_def getVariable_def Let_def trim_idem)

lemma cacheDir_nonempty: "fst (cacheDir ag w) \<noteq> []"
  by (simp add: cacheDir_eq path_resolve_nonempty)

lemma cacheDir_same_host: "same_host w (snd (cacheDir ag w))"
  by (simp add: cacheDir_eq)

lemma cacheDir_files [simp]: "files (snd (cacheDir ag w)) = files w"
  by (simp add: cacheDir_eq)

lemma cacheDir_fst_same_host:
  assumes "same_host w w'"
  shows "fst (cacheDir ag w') = fst (cacheDir ag w)"
proof -
  have "env_get w' k = env_get w k" for k
    using assms by (simp add: env_get_def env_key_def same_host_def)
  moreover have "path_resolve w' p = path_resolve w p" for p
    using assms by (rule same_host_path_resolve)
  ultimately show ?thesis by (simp add: cacheDir_eq)
qed

lemma directoryExists_iff: "directoryExists p w \<longleftrightarrow> map_of (files w) (fs_loc w p) = Some DirE"
  by (auto simp: directoryExists_with_def directoryExists_def lookup_fs_def
        fs_access_def fs_stat_def isDirectory_def
      split: sum.splits option.splits)

lemma fs_mkdir_success:
  assumes "fs_mkdir p w = Inr w'"
  shows "mkdir_p (files w) (fs_loc w p) = Inr (files w')" "same_host w w'"
  using assms by (auto simp: fs_mkdir_def split: sum.splits)

lemma fs_cp_success:
  assumes "fs_cp src dest w = Inr w'"
  shows "cp_r (files w) (fs_loc w src) (fs_loc w dest) = Inr (files w')" "same_host w w'"
  using assms by (auto simp: fs_cp_def split: sum.splits)

lemma removeDirectory_files:
  "files (removeDirectory p w) = filter (\<lambda>(q, e). \<not> prefix (fs_loc w p) q) (files w)"
  "same_host w (removeDirectory p w)"
  by (simp_all add: removeDirectory_def fs_rm_def same_host_def)

lemma cacheToolDirectory_success:
  assumes "cacheToolDirectory ag cl sourceDir tool version w = (Inr destPath, w')"
  obtains fs2 where "tool \<noteq> []" "version \<noteq> []"
    "destPath = path_join [fst (cacheDir ag w), tool, clean_or cl version]"
    "mkdir_p (if map_of (files w) (fs_loc w destPath) = Some DirE
              then filter (\<lambda>(q, e). \<not> prefix (fs_loc w destPath) q) (files w)
              else files w) (fs_loc w destPath) = Inr fs2"
    "cp_r fs2 (fs_loc w sourceDir) (fs_loc w destPath) = Inr (files w')"
    "same_host w w'"
proof -
  have ne: "tool \<noteq> []" "version \<noteq> []" "sourceDir \<noteq> []"
    using assms by (auto simp: cacheToolDirectory_def split: if_splits)
  obtain cacheRoot w1 where c: "cacheDir ag w = (cacheRoot, w1)" by (cases "cacheDir ag w")
  have root: "cacheRoot \<noteq> []" "cacheRoot = fst (cacheDir ag w)"
    using cacheDir_nonempty [of ag w] c by simp_all
  have h1: "same_host w w1" and f1: "files w1 = files w"
    using cacheDir_same_host [of w ag] cacheDir_files [of ag w] c by simp_all
  define dest where "dest = path_join [cacheRoot, tool, clean_or cl version]"
  define w2 where "w2 = (if directoryExists dest w1
       then removeDirectory dest
              (debug (''Destination directory '' @ dest @ '' already exists, removing'') w1)
       else w1)"
  define w3 where "w3 = debug (''Copying '' @ sourceDir @ '' to '' @ dest) w2"
  have run: "cacheToolDirectory ag cl sourceDir tool version w
      = (case fs_mkdir dest w3 of
           Inl e \<Rightarrow> (Inl e, w3)
         | Inr w4 \<Rightarrow>
             (case fs_cp sourceDir dest w4 of
                Inl e \<Rightarrow> (Inl e, w4)
              | Inr w5 \<Rightarrow>
                  (Inr dest,
                   debug (''Caching '' @ tool @ ''@'' @ clean_or cl version @ '' from ''
                            @ sourceDir) w5)))"
    unfolding cacheToolDirectory_def c w3_def w2_def dest_def
    using ne root(1) by (simp only: Let_def prod.case if_False refl)
  obtain w4 where mk: "fs_mkdir dest w3 = Inr w4"
    using assms unfolding run by (cases "fs_mkdir dest w3") simp_all
  obtain w5 where cp: "fs_cp sourceDir dest w4 = Inr w5"
    using assms unfolding run by (cases "fs_cp sourceDir dest w4") (simp_all add: mk)
  have res: "destPath = dest"
      "w' = debug (''Caching '' @ tool @ ''@'' @ clean_or cl version @ '' from '' @ sourceDir) w5"
    using assms unfolding run by (simp_all add: mk cp)
  have h2: "same_host w1 w2"
    unfolding w2_def
    by (auto intro: same_host_trans [OF same_host_logged(1) removeDirectory_files(2)])
  have h3: "same_host w w3"
    unfolding w3_def using h1 h2 same_host_logged(1) by (blast intro: same_host_trans)
  have loc3: "fs_loc w3 p = fs_loc w p" for p using h3 by (rule same_host_fs_loc)
  have loc1: "fs_loc w1 p = fs_loc w p" for p using h1 by (rule same_host_fs_loc)
  have h4: "same_host w w4" using h3 fs_mkdir_success(2) [OF mk] by (rule same_host_trans)
  have loc4: "fs_loc w4 p = fs_loc w p" for p using h4 by (rule same_host_fs_loc)
  have h5: "same_host w w5" using h4 fs_cp_success(2) [OF cp] by (rule same_host_trans)
  have f3: "files w3 = (if map_of (files w) (fs_loc w dest) = Some DirE
              then filter (\<lambda>(q, e). \<not> prefix (fs_loc w dest) q) (files w)
              else files w)"
    unfolding w3_def w2_def
    by (simp add: directoryExists_iff removeDirectory_files(1) f1 loc1)
  have m: "mkdir_p (files w3) (fs_loc w dest) = Inr (files w4)"
    using fs_mkdir_success(1) [OF mk] by (simp add: loc3)
  have k: "cp_r (files w4) (fs_loc w sourceDir) (fs_loc w dest) = Inr (files w5)"
    using fs_cp_success(1) [OF cp] by (simp add: loc4)
  have fw: "files w' = files w5" by (simp add: res(2))
  have hw: "same_host w w'"
    unfolding res(2) using h5 same_host_logged(1) by (rule same_host_trans)
  show thesis
  proof (rule that [of "files w4"])
    show "tool \<noteq> []" "version \<noteq> []" by (rule ne)+
    show "destPath = path_join [fst (cacheDir ag w), tool, clean_or cl version]"
      by (simp add: res(1) dest_def root(2))
    show "mkdir_p (if map_of (files w) (fs_loc w destPath) = Some DirE
              then filter (\<lambda>(q, e). \<not> prefix (fs_loc w destPath) q) (files w)
              else files w) (fs_loc w destPath) = Inr (files w4)"
      using m unfolding f3 res(1) .
    show "cp_r (files w4) (fs_loc w sourceDir) (fs_loc w destPath) = Inr (files w')"
      using k by (simp add: fw res(1))
    show "same_host w w'" by (rule hw)
  qed
qed

lemma findLocalTool_found:
  assumes "toolName \<noteq> []" "versionSpec \<noteq> []"
    and "directoryExists (path_join [fst (cacheDir ag w), toolName, clean_or cl versionSpec]) w"
  shows "fst (findLocalTool ag cl toolName versionSpec w)
           = Inr (Some (path_join [fst (cacheDir ag w), toolName, clean_or cl versionSpec]))"
proof -
  obtain cacheRoot w1 where c: "cacheDir ag w = (cacheRoot, w1)" by (cases "cacheDir ag w")
  have w1: "w1 = snd (cacheDir ag w)" "cacheRoot = fst (cacheDir ag w)" using c by simp_all
  have root: "cacheRoot \<noteq> []" using cacheDir_nonempty [of ag w] c by simp
  have d: "directoryExists p w1 = directoryExists p w" for p
    unfolding w1 by (simp add: cacheDir_eq)
  show ?thesis
    unfolding findLocalTool_def c
    using assms root by (simp add: Let_def d w1(2) [symmetric])
qed

lemma cacheDir_absolute: "isAbsolute (cwd w) \<Longrightarrow> isAbsolute (fst (cacheDir ag w))"
  by (simp add: cacheDir_eq path_resolve_def Let_def) (simp add: isAbsolute_def)

text \<open>
  Claim C4. In a file system where every entry lies in directories that exist, let
  \<open>cacheToolDirectory\<close> succeed and return a path. Then \<open>findLocalTool\<close>, called next
  with the same tool and version, returns that same path; every location below that
  path holds what the same location below the source directory held when the call
  began, and nothing else; the path is a directory; and the path is absolute when the
  working directory is. The version is cleaned by the same function on both sides.
\<close>

theorem cache_then_find_round_trip:
  assumes "wf_fs (files w)"
    and "cacheToolDirectory ag semver_clean sourceDir tool version w = (Inr destPath, w')"
  shows "fst (findLocalTool ag semver_clean tool version w') = Inr (Some destPath)
       \<and> (\<forall>rel. lookup_fs w' (fs_loc w' destPath @ rel) = lookup_fs w (fs_loc w sourceDir @ rel))
       \<and> directoryExists destPath w'
       \<and> (isAbsolute (cwd w) \<longrightarrow> isAbsolute destPath)"
proof -
  obtain fs2 where ne: "tool \<noteq> []" "version \<noteq> []"
    and dest: "destPath = path_join [fst (cacheDir ag w), tool, clean_or semver_clean version]"
    and mk: "mkdir_p (if map_of (files w) (fs_loc w destPath) = Some DirE
              then filter (\<lambda>(q, e). \<not> prefix (fs_loc w destPath) q) (files w)
              else files w) (fs_loc w destPath) = Inr fs2"
    and cp: "cp_r fs2 (fs_loc w sourceDir) (fs_loc w destPath) = Inr (files w')"
    and host: "same_host w w'"
    using assms(2) by (rule cacheToolDirectory_success)
  note core = cache_copy_contents [OF assms(1) refl mk cp]
  have loc: "fs_loc w' p = fs_loc w p" for p using host by (rule same_host_fs_loc)
  have root: "fst (cacheDir ag w') = fst (cacheDir ag w)"
    using host by (rule cacheDir_fst_same_host)
  have ex: "directoryExists destPath w'"
    by (simp add: directoryExists_iff loc core(2))
  have "fst (findLocalTool ag semver_clean tool version w')
          = Inr (Some (path_join [fst (cacheDir ag w'), tool, clean_or semver_clean version]))"
    using ne ex by (intro findLocalTool_found) (simp_all add: root dest [symmetric])
  then have found: "fst (findLocalTool ag semver_clean tool version w') = Inr (Some destPath)"
    by (simp add: root dest [symmetric])
  have ab: "isAbsolute destPath" if "isAbsolute (cwd w)"
    unfolding dest using that by (intro path_join_absolute cacheDir_absolute)
  show ?thesis
    using found ex core(1) ab by (simp add: lookup_fs_def loc)
qed


theorem cache_then_find_round_trip_witness:
  "wf_fs (files example_world)
   \<and> cacheToolDirectory example_agent example_clean ''/src'' ''tool'' ''v1.2.3'' example_world
       = (Inr ''/cache/tool/1.2.3'', cached_world)
   \<and> fst (findLocalTool example_agent example_clean ''tool'' ''v1.2.3'' cached_world)
       = Inr (Some ''/cache/tool/1.2.3'')
   \<and> lookup_fs cached_world (fs_loc cached_world ''/cache/tool/1.2.3'' @ [''bin'', ''grm''])
       = Some (FileE ''#!run'')
   \<and> lookup_fs cached_world (fs_loc cached_world ''/cache/tool/1.2.3'' @ [''old'']) = None
   \<and> lookup_fs example_world (fs_loc example_world ''/cache/tool/1.2.3'' @ [''old''])
       = Some (FileE ''stale'')
   \<and> isAbsolute ''/cache/tool/1.2.3''"
proof -
  have wf: "wf_fs (files example_world)" by code_simp
  have "fst (cacheToolDirectory example_agent example_clean ''/src'' ''tool'' ''v1.2.3''
               example_world) = Inr ''/cache/tool/1.2.3''"
    by code_simp
  then have run: "cacheToolDirectory example_agent example_clean ''/src'' ''tool'' ''v1.2.3''
                    example_world = (Inr ''/cache/tool/1.2.3'', cached_world)"
    by (simp add: cached_world_def prod_eq_iff)
  have src: "lookup_fs example_world (fs_loc example_world ''/src'' @ [''bin'', ''grm''])
               = Some (FileE ''#!run'')"
    "lookup_fs example_world (fs_loc example_world ''/src'' @ [''old'']) = None"
    "lookup_fs example_world (fs_loc example_world ''/cache/tool/1.2.3'' @ [''old''])
       = Some (FileE ''stale'')"
    "isAbsolute (cwd example_world)"
    by code_simp+
  show ?thesis
    using cache_then_find_round_trip [OF wf run] wf run src by simp
qed

subsection \<open>No cache directory configured\<close>

text \<open>
  Claim C1 says that with the cache-directory variable unset or empty
  \<open>cacheToolDirectory\<close> returns the empty string and \<open>findLocalTool\<close> returns nothing,
  without touching the file system. The code reads the cache root through
  \<open>getVariableAsPath\<close>, which resolves the empty value to the working directory, so
  the test for an empty cache root never holds. On the example host without the
  variable, working in \<^verbatim>\<open>/work\<close>: \<open>cacheToolDirectory\<close> returns
  \<^verbatim>\<open>/work/tool/1.2.3\<close> and makes that directory; \<open>findLocalTool\<close> then returns
  that path; and before, \<open>findLocalTool\<close> returns nothing only after it has looked for
  the directory.
\<close>

theorem unset_cache_root_is_working_directory:
  "env_get uncached_world (cacheDirVariable example_agent) = None
   \<and> fst (cacheToolDirectory example_agent example_clean ''/src'' ''tool'' ''1.2.3''
            uncached_world) = Inr ''/work/tool/1.2.3''
   \<and> \<not> directoryExists ''/work/tool/1.2.3'' uncached_world
   \<and> directoryExists ''/work/tool/1.2.3''
        (snd (cacheToolDirectory example_agent example_clean ''/src'' ''tool'' ''1.2.3''
                uncached_world))
   \<and> fst (findLocalTool example_agent example_clean ''tool'' ''1.2.3''
            (snd (cacheToolDirectory example_agent example_clean ''/src'' ''tool'' ''1.2.3''
                    uncached_world))) = Inr (Some ''/work/tool/1.2.3'')
   \<and> fst (findLocalTool example_agent example_clean ''tool'' ''1.2.3'' uncached_world)
       = Inr None
   \<and> logged (snd (findLocalTool example_agent example_clean ''tool'' ''1.2.3'' uncached_world))
       = [(Debug, ''getVariable - AGENT_TOOLS_DIR: ''),
          (Info, ''Looking for local tool tool@1.2.3''),
          (Info, ''Directory /work/tool/1.2.3 not found'')]"
  by code_simp

end
